theory Spec2Isabelle
  imports Complex_Main
begin

section \<open>Errors raised by the module and by the libraries it calls\<close>

text \<open>
  Every exception the Python code can raise is a value. An \<open>assert\<close> without a message
  raises \<open>AssertionError None\<close>, an \<open>assert cond, msg\<close> raises
  \<open>AssertionError (Some msg)\<close>. \<open>RuntimeError\<close> is what the tensor library raises
  on incompatible shapes or a negative size.
\<close>

datatype error =
    AssertionError "string option"
  | ZeroDivisionError
  | RuntimeError
  | ConfigurationError
  | AttributeError
  | ValueError

section \<open>Floating-point numbers\<close>

text \<open>
  A floating-point number is modelled by its real value, and every arithmetic operation
  of the program by the exact operation followed by rounding to the format: to the
  nearest representable number, ties to the even significand. A format has \<open>p\<close>
  significant bits and units in the last place no smaller than \<open>2 ^ emin\<close>: float32 is
  \<open>p = 24\<close>, \<open>emin = -149\<close>, and Python's float (float64) is \<open>p = 53\<close>,
  \<open>emin = -1074\<close>. Overflow to infinity is not modelled.
\<close>

definition pow2 :: "int \<Rightarrow> real" where
  "pow2 e = (if 0 \<le> e then 2 ^ nat e else 1 / 2 ^ nat (- e))"

definition round_half_even :: "real \<Rightarrow> int" where
  "round_half_even q =
     (let f = \<lfloor>q\<rfloor>; r = q - of_int f in
      if r < 1 / 2 then f else if 1 / 2 < r then f + 1 else if even f then f else f + 1)"

text \<open>The exponent of the unit in the last place of \<open>x\<close>.\<close>

definition ulp_exp :: "nat \<Rightarrow> int \<Rightarrow> real \<Rightarrow> int" where
  "ulp_exp p emin x = max (\<lfloor>log 2 \<bar>x\<bar>\<rfloor> - int p + 1) emin"

definition round_to :: "nat \<Rightarrow> int \<Rightarrow> real \<Rightarrow> real" where
  "round_to p emin x =
     (if x = 0 then 0
      else of_int (round_half_even (x / pow2 (ulp_exp p emin x))) * pow2 (ulp_exp p emin x))"

definition float32 :: "real \<Rightarrow> real" where
  "float32 = round_to 24 (- 149)"

definition float64 :: "real \<Rightarrow> real" where
  "float64 = round_to 53 (- 1074)"

text \<open>The elementwise product and sum of float32 tensors.\<close>

definition fmul :: "real \<Rightarrow> real \<Rightarrow> real" where
  "fmul x y = float32 (x * y)"

definition fadd :: "real \<Rightarrow> real \<Rightarrow> real" where
  "fadd x y = float32 (x + y)"

text \<open>
  The inner product inside \<open>torch.matmul\<close> is computed by a numerical kernel whose order
  of accumulation the library does not fix. The operations below take the kernel as
  their first argument. \<open>fdot\<close> is the kernel that accumulates from left to right and
  rounds after every product and every sum.
\<close>

definition fdot :: "real list \<Rightarrow> real list \<Rightarrow> real" where
  "fdot xs ys = foldl (\<lambda>acc xy. fadd acc (fmul (fst xy) (snd xy))) 0 (zip xs ys)"




section \<open>Tensors\<close>

text \<open>
  A tensor is its shape together with its entries as nested lists (row-major, as
  \<open>tolist()\<close> prints them). The shape is kept apart from the entries because a tensor
  with an empty dimension still has a definite shape: \<open>[2, 0, 5]\<close> and \<open>[2, 0, 7]\<close>
  have the same entries and different last dimensions. Entries are the real values of
  float32 numbers.
  A one-dimensional tensor is a plain list, its shape is its length.
\<close>

record tensor2 =
  shape2 :: "nat \<times> nat"
  data2 :: "real list list"

record tensor3 =
  shape3 :: "nat \<times> nat \<times> nat"
  data3 :: "real list list list"


definition wf3 :: "tensor3 \<Rightarrow> bool" where
  "wf3 t = (case shape3 t of (B, L, D) \<Rightarrow>
     length (data3 t) = B \<and>
     (\<forall>m \<in> set (data3 t). length m = L \<and> (\<forall>r \<in> set m. length r = D)))"

text \<open>\<open>t.shape[-1]\<close> of a three-dimensional tensor.\<close>

definition last_dim :: "tensor3 \<Rightarrow> nat" where
  "last_dim t = (case shape3 t of (B, L, D) \<Rightarrow> D)"

text \<open>Python's \<open>xs[a:b]\<close> for indices \<open>0 \<le> a\<close>, \<open>0 \<le> b\<close>: it never raises, and is
  cut at the end of the list.\<close>

definition slice :: "nat \<Rightarrow> nat \<Rightarrow> 'a list \<Rightarrow> 'a list" where
  "slice a b xs = take (b - a) (drop a xs)"

text \<open>Broadcasting of one dimension: equal sizes, or one of them is 1.\<close>

definition broadcast_dim :: "nat \<Rightarrow> nat \<Rightarrow> nat option" where
  "broadcast_dim a b =
     (if a = b then Some a else if a = 1 then Some b else if b = 1 then Some a else None)"

text \<open>A dimension of size 1 is repeated to the broadcast size \<open>n\<close>; a dimension that
  already has size \<open>n\<close> is kept. On a well-formed tensor these are the only cases
  broadcasting leaves.\<close>

definition expand :: "nat \<Rightarrow> 'a list \<Rightarrow> 'a list" where
  "expand n xs = (if length xs = n then xs else replicate n (hd xs))"

definition expand3 :: "nat \<times> nat \<times> nat \<Rightarrow> tensor3 \<Rightarrow> real list list list" where
  "expand3 s t = (case s of (B, L, D) \<Rightarrow>
     expand B (map (\<lambda>m. expand L (map (expand D) m)) (data3 t)))"

text \<open>\<open>torch.matmul(t, v)\<close> for \<open>t\<close> of shape \<open>[B, L, D]\<close> and a vector \<open>v\<close>: the
  matrix-vector product of every batch, of shape \<open>[B, L]\<close>; the sizes must agree.\<close>

definition matmul_vec ::
  "(real list \<Rightarrow> real list \<Rightarrow> real) \<Rightarrow> tensor3 \<Rightarrow> real list \<Rightarrow> error + tensor2" where
  "matmul_vec ip t v = (case shape3 t of (B, L, D) \<Rightarrow>
     if D \<noteq> length v then Inl RuntimeError
     else Inr \<lparr>shape2 = (B, L), data2 = map (map (\<lambda>r. ip r v)) (data3 t)\<rparr>)"

text \<open>\<open>x.unsqueeze(dim=2)\<close>: \<open>[B, L]\<close> becomes \<open>[B, L, 1]\<close>;
  \<open>x.unsqueeze(dim=1)\<close>: \<open>[B, L]\<close> becomes \<open>[B, 1, L]\<close>.\<close>

definition unsqueeze_2 :: "tensor2 \<Rightarrow> tensor3" where
  "unsqueeze_2 t = (case shape2 t of (B, L) \<Rightarrow>
     \<lparr>shape3 = (B, L, 1), data3 = map (map (\<lambda>x. [x])) (data2 t)\<rparr>)"

definition unsqueeze_1 :: "tensor2 \<Rightarrow> tensor3" where
  "unsqueeze_1 t = (case shape2 t of (B, L) \<Rightarrow>
     \<lparr>shape3 = (B, 1, L), data3 = map (\<lambda>r. [r]) (data2 t)\<rparr>)"

text \<open>\<open>t * v\<close> for \<open>t\<close> of shape \<open>[B, L, D]\<close> and a vector \<open>v\<close>: the elementwise
  float32 product, the vector broadcast along the last dimension.\<close>

definition mul_vec :: "tensor3 \<Rightarrow> real list \<Rightarrow> error + tensor3" where
  "mul_vec t v = (case shape3 t of (B, L, D) \<Rightarrow>
     (case broadcast_dim D (length v) of
        None \<Rightarrow> Inl RuntimeError
      | Some D' \<Rightarrow>
          Inr \<lparr>shape3 = (B, L, D'),
               data3 = map (map (\<lambda>r. map2 fmul (expand D' r) (expand D' v))) (data3 t)\<rparr>))"

text \<open>\<open>t.permute(0, 2, 1).contiguous()\<close>: every batch is transposed. The columns are
  enumerated from the shape, so that a batch with no rows still has its \<open>D\<close> (empty)
  columns.\<close>

definition permute_021 :: "tensor3 \<Rightarrow> tensor3" where
  "permute_021 t = (case shape3 t of (B, L, D) \<Rightarrow>
     \<lparr>shape3 = (B, D, L),
      data3 = map (\<lambda>m. map (\<lambda>k. map (\<lambda>r. r ! k) m) [0..<D]) (data3 t)\<rparr>)"

text \<open>\<open>torch.matmul(a, b)\<close> for \<open>a\<close> of shape \<open>[Ba, N, K]\<close> and \<open>b\<close> of shape
  \<open>[Bb, K', M]\<close>: the inner sizes must agree, the batch dimensions are broadcast, and
  every batch is a matrix product.\<close>

definition matmul ::
  "(real list \<Rightarrow> real list \<Rightarrow> real) \<Rightarrow> tensor3 \<Rightarrow> tensor3 \<Rightarrow> error + tensor3" where
  "matmul ip a b = (case shape3 a of (Ba, N, K) \<Rightarrow> (case shape3 b of (Bb, K', M) \<Rightarrow>
     if K \<noteq> K' then Inl RuntimeError
     else (case broadcast_dim Ba Bb of
        None \<Rightarrow> Inl RuntimeError
      | Some B \<Rightarrow>
          Inr \<lparr>shape3 = (B, N, M),
               data3 = map2 (\<lambda>ma mb. map (\<lambda>ra. map (\<lambda>j. ip ra (map (\<lambda>rb. rb ! j) mb)) [0..<M]) ma)
                         (expand B (data3 a)) (expand B (data3 b))\<rparr>)))"

text \<open>\<open>a + b\<close> for three-dimensional tensors, every dimension broadcast, every sum
  rounded to float32.\<close>

definition add :: "tensor3 \<Rightarrow> tensor3 \<Rightarrow> error + tensor3" where
  "add a b = (case shape3 a of (B1, L1, D1) \<Rightarrow> (case shape3 b of (B2, L2, D2) \<Rightarrow>
     (case broadcast_dim B1 B2 of None \<Rightarrow> Inl RuntimeError | Some B \<Rightarrow>
     (case broadcast_dim L1 L2 of None \<Rightarrow> Inl RuntimeError | Some L \<Rightarrow>
     (case broadcast_dim D1 D2 of None \<Rightarrow> Inl RuntimeError | Some D \<Rightarrow>
        Inr \<lparr>shape3 = (B, L, D),
             data3 = map2 (map2 (map2 fadd)) (expand3 (B, L, D) a) (expand3 (B, L, D) b)\<rparr>)))))"

section \<open>The scorer\<close>

text \<open>The attributes \<open>_combination\<close>, \<open>_part\<close>, \<open>_weight_vector\<close>, \<open>_bias\<close> and
  \<open>_activation\<close> of a \<open>MyLinearSimilarity\<close>. The bias is a tensor of shape \<open>[1]\<close>.\<close>

record scorer =
  combination :: string
  part :: nat
  weight_vector :: "real list"
  bias :: "real list"
  activation :: "tensor3 \<Rightarrow> tensor3"

text \<open>Decimal digits of a natural number, as \<open>str\<close> prints them.\<close>

fun str_nat :: "nat \<Rightarrow> string" where
  "str_nat n = (if n < 10 then [''0123456789'' ! n]
                else str_nat (n div 10) @ [''0123456789'' ! (n mod 10)])"

declare str_nat.simps [simp del]

text \<open>\<open>'{} vs {}'.format(self._weight_vector.shape, self._part)\<close>\<close>

definition shape_message :: "nat \<Rightarrow> nat \<Rightarrow> string" where
  "shape_message n p = ''torch.Size(['' @ str_nat n @ '']) vs '' @ str_nat p"

text \<open>
  \<open>forward\<close>, line by line, on the three-dimensional inputs its docstring names
  (\<open>[batch, len_1, d]\<close> and \<open>[batch, len_2, d]\<close>). The first assertion has no
  message. The floor division raises when \<open>_part\<close> is 0. Every later line can only
  fail inside the tensor library. The first argument is the inner-product kernel of
  \<open>torch.matmul\<close>.
\<close>

definition forward ::
  "(real list \<Rightarrow> real list \<Rightarrow> real) \<Rightarrow> scorer \<Rightarrow> tensor3 \<Rightarrow> tensor3 \<Rightarrow> error + tensor3" where
  "forward ip self tensor_1 tensor_2 =
    (let w = weight_vector self; n = length w; p = part self in
     if last_dim tensor_1 * p \<noteq> n then Inl (AssertionError None)
     else if p = 0 then Inl ZeroDivisionError
     else let d = n div p in
     if n mod p \<noteq> 0 then Inl (AssertionError (Some (shape_message n p)))
     else (case matmul_vec ip tensor_1 (slice 0 d w) of Inl e \<Rightarrow> Inl e | Inr sim_1 \<Rightarrow>
          (case matmul_vec ip tensor_2 (slice d (2 * d) w) of Inl e \<Rightarrow> Inl e | Inr sim_2 \<Rightarrow>
          (let sim_1u = unsqueeze_2 sim_1; sim_2u = unsqueeze_1 sim_2 in
          (case mul_vec tensor_1 (slice (2 * d) (3 * d) w) of Inl e \<Rightarrow> Inl e | Inr sim_1_temp \<Rightarrow>
          (let sim_2_temp = permute_021 tensor_2 in
          (case matmul ip sim_1_temp sim_2_temp of Inl e \<Rightarrow> Inl e | Inr sim_1_2 \<Rightarrow>
          (case add sim_1u sim_2u of Inl e \<Rightarrow> Inl e | Inr s12 \<Rightarrow>
             add s12 sim_1_2))))))))"

section \<open>The environment of the constructor\<close>

text \<open>
  The constructor has two effects outside the object it builds: it allocates tensors,
  and it draws from the default random generator. Both are threaded through a record:
  \<open>allocated\<close> lists the sizes of the tensors allocated so far and \<open>drawn\<close> counts
  the samples consumed. \<open>samples\<close> is the generator's stream of unit samples for the
  current seed, and \<open>uninit\<close> is what freshly allocated memory happens to hold.
\<close>

record world =
  uninit :: "nat \<Rightarrow> real"
  allocated :: "nat list"
  samples :: "nat \<Rightarrow> real"
  drawn :: nat

text \<open>\<open>torch.Tensor(n)\<close>: an uninitialised one-dimensional tensor of \<open>n\<close> entries; a
  negative size is refused.\<close>

definition torch_Tensor :: "int \<Rightarrow> world \<Rightarrow> (error + real list) \<times> world" where
  "torch_Tensor n w =
     (if n < 0 then (Inl RuntimeError, w)
      else (Inr (map (uninit w) [0..<nat n]), w\<lparr>allocated := allocated w @ [nat n]\<rparr>))"

text \<open>\<open>t.uniform_(lo, hi)\<close> for a float32 tensor of \<open>n\<close> entries: the bounds are
  converted to float32, and every entry is \<open>u * (b - a) + a\<close> in float32 arithmetic
  for the next unit sample \<open>u\<close> of the generator.\<close>

definition uniform :: "real \<Rightarrow> real \<Rightarrow> nat \<Rightarrow> world \<Rightarrow> real list \<times> world" where
  "uniform lo hi n w =
     (let a = float32 lo; b = float32 hi in
      (map (\<lambda>i. fadd (fmul (samples w (drawn w + i)) (float32 (b - a))) a) [0..<n],
       w\<lparr>drawn := drawn w + n\<rparr>))"

text \<open>\<open>reset_parameters\<close>: the weights are redrawn in place, the bias is filled with 0.
  \<open>std\<close> is a Python float: the quotient and the square root are each rounded to
  float64.\<close>

definition std_of :: "nat \<Rightarrow> real" where
  "std_of n = float64 (sqrt (float64 (6 / (real n + 1))))"

definition reset_parameters :: "scorer \<Rightarrow> world \<Rightarrow> scorer \<times> world" where
  "reset_parameters self w =
     (let std = std_of (length (weight_vector self)) in
      case uniform (- std) std (length (weight_vector self)) w of
        (wv, w') \<Rightarrow> (self\<lparr>weight_vector := wv, bias := map (\<lambda>_. 0) (bias self)\<rparr>, w'))"

text \<open>Python's \<open>s.split(c)\<close> for a one-character separator: the pieces between the
  separators, empty pieces included; the empty string gives one empty piece.\<close>

fun str_split :: "char \<Rightarrow> string \<Rightarrow> string list" where
  "str_split c [] = [[]]"
| "str_split c (x # xs) =
     (if x = c then [] # str_split c xs
      else (case str_split c xs of [] \<Rightarrow> [[x]] | t # ts \<Rightarrow> (x # t) # ts))"

text \<open>
  \<open>__init__\<close>. The function \<open>util.get_combined_dim\<close> is defined outside this module
  and is the first argument here. If it raises, nothing has been allocated yet.
\<close>

definition init ::
  "(string \<Rightarrow> int list \<Rightarrow> error + int) \<Rightarrow> int \<Rightarrow> int \<Rightarrow> string \<Rightarrow> (tensor3 \<Rightarrow> tensor3) \<Rightarrow>
   world \<Rightarrow> (error + scorer) \<times> world" where
  "init get_dim tensor_1_dim tensor_2_dim comb act w =
     (let p = length (str_split CHR '','' comb) in
      case get_dim comb [tensor_1_dim, tensor_2_dim] of
        Inl e \<Rightarrow> (Inl e, w)
      | Inr combined_dim \<Rightarrow>
          (case torch_Tensor combined_dim w of
             (Inl e, w1) \<Rightarrow> (Inl e, w1)
           | (Inr wv, w1) \<Rightarrow>
               (case torch_Tensor 1 w1 of
                  (Inl e, w2) \<Rightarrow> (Inl e, w2)
                | (Inr b, w2) \<Rightarrow>
                    (case reset_parameters
                            \<lparr>combination = comb, part = p, weight_vector = wv, bias = b,
                             activation = act\<rparr> w2 of
                       (self, w3) \<Rightarrow> (Inr self, w3)))))"

section \<open>Collaborators described by the specification only\<close>

text \<open>
  Modelled from the spec: \<open>util.get_combined_dim\<close>, which is not among the sources.
  The combination string is cut at the commas; every token must be one of the six
  recognized forms; \<open>x\<close> contributes the first dimension, \<open>y\<close> the second, and an
  elementwise binary operation requires the two dimensions to be equal and contributes
  the common one. Anything else is a ConfigurationError.
\<close>

definition recognized :: "string \<Rightarrow> bool" where
  "recognized tok =
     (tok = ''x'' \<or> tok = ''y'' \<or> tok = ''x*y'' \<or> tok = ''x+y'' \<or> tok = ''x-y'' \<or> tok = ''x/y'')"

definition combination_dim :: "string \<Rightarrow> int \<Rightarrow> int \<Rightarrow> error + int" where
  "combination_dim tok dim1 dim2 =
     (if tok = ''x'' then Inr dim1
      else if tok = ''y'' then Inr dim2
      else if recognized tok then (if dim1 = dim2 then Inr dim1 else Inl ConfigurationError)
      else Inl ConfigurationError)"

fun sum_dims :: "(error + int) list \<Rightarrow> error + int" where
  "sum_dims [] = Inr 0"
| "sum_dims (r # rs) =
     (case r of Inl e \<Rightarrow> Inl e
      | Inr n \<Rightarrow> (case sum_dims rs of Inl e \<Rightarrow> Inl e | Inr m \<Rightarrow> Inr (n + m)))"

definition get_combined_dim :: "string \<Rightarrow> int list \<Rightarrow> error + int" where
  "get_combined_dim comb tensor_dims =
     (case tensor_dims of
        [dim1, dim2] \<Rightarrow>
          sum_dims (map (\<lambda>tok. combination_dim tok dim1 dim2) (str_split CHR '','' comb))
      | _ \<Rightarrow> Inl ConfigurationError)"

text \<open>
  Modelled from the spec: the configuration object \<open>Params\<close>, which is not among the
  sources: a key-value structure with \<open>pop_int(key)\<close>, \<open>pop(key, default)\<close> and
  \<open>assert_empty(name)\<close>. A required key that is absent and a key left over are
  ConfigurationErrors. The spec does not say what \<open>pop_int\<close> does with a value that
  is not an integer; it is refused here.
\<close>

datatype pvalue = PInt int | PStr string

type_synonym params = "(string \<times> pvalue) list"

definition remove_key :: "string \<Rightarrow> params \<Rightarrow> params" where
  "remove_key key ps = filter (\<lambda>kv. fst kv \<noteq> key) ps"

definition pop_int :: "params \<Rightarrow> string \<Rightarrow> error + (int \<times> params)" where
  "pop_int ps key =
     (case map_of ps key of
        None \<Rightarrow> Inl ConfigurationError
      | Some (PInt n) \<Rightarrow> Inr (n, remove_key key ps)
      | Some (PStr s) \<Rightarrow> Inl ValueError)"

definition pop :: "params \<Rightarrow> string \<Rightarrow> pvalue \<Rightarrow> pvalue \<times> params" where
  "pop ps key dflt =
     (case map_of ps key of None \<Rightarrow> (dflt, ps) | Some v \<Rightarrow> (v, remove_key key ps))"

definition assert_empty :: "params \<Rightarrow> error + unit" where
  "assert_empty ps = (if ps = [] then Inr () else Inl ConfigurationError)"

text \<open>
  Modelled from the spec: \<open>Activation.by_name\<close>, which is not among the sources. The
  name \<open>linear\<close> is the identity; every other name is looked up in the registry of the
  host framework, and an unknown name is a ConfigurationError.
\<close>

definition Activation_by_name ::
  "(string \<rightharpoonup> (tensor3 \<Rightarrow> tensor3)) \<Rightarrow> pvalue \<Rightarrow> error + (tensor3 \<Rightarrow> tensor3)" where
  "Activation_by_name registry v =
     (case v of
        PInt n \<Rightarrow> Inl ConfigurationError
      | PStr name \<Rightarrow>
          (if name = ''linear'' then Inr (\<lambda>t. t)
           else (case registry name of None \<Rightarrow> Inl ConfigurationError | Some f \<Rightarrow> Inr f)))"

text \<open>
  \<open>from_params\<close>, line by line. The constructor splits the combination at the commas,
  which only a string supports. The consumed configuration object is not returned.
\<close>

definition from_params ::
  "(string \<rightharpoonup> (tensor3 \<Rightarrow> tensor3)) \<Rightarrow> params \<Rightarrow> world \<Rightarrow> (error + scorer) \<times> world" where
  "from_params registry ps w =
     (case pop_int ps ''tensor_1_dim'' of Inl e \<Rightarrow> (Inl e, w) | Inr (tensor_1_dim, ps1) \<Rightarrow>
     (case pop_int ps1 ''tensor_2_dim'' of Inl e \<Rightarrow> (Inl e, w) | Inr (tensor_2_dim, ps2) \<Rightarrow>
     (case pop ps2 ''combination'' (PStr ''x,y'') of (comb, ps3) \<Rightarrow>
     (case pop ps3 ''activation'' (PStr ''linear'') of (name, ps4) \<Rightarrow>
     (case Activation_by_name registry name of Inl e \<Rightarrow> (Inl e, w) | Inr act \<Rightarrow>
     (case assert_empty ps4 of Inl e \<Rightarrow> (Inl e, w) | Inr u \<Rightarrow>
     (case comb of
        PInt n \<Rightarrow> (Inl AttributeError, w)
      | PStr c \<Rightarrow> init get_combined_dim tensor_1_dim tensor_2_dim c act w)))))))"

section \<open>Concrete inputs\<close>

text \<open>The worked example of the specification: \<open>d = 2\<close>, three tokens.\<close>

definition ex_scorer :: scorer where
  "ex_scorer = \<lparr>combination = ''x,y,x*y'', part = 3, weight_vector = [1, 0, 0, 1, 1, 1],
                 bias = [0], activation = (\<lambda>t. t)\<rparr>"

definition ex_t1 :: tensor3 where
  "ex_t1 = \<lparr>shape3 = (1, 1, 2), data3 = [[[1, 2]]]\<rparr>"

definition ex_t2 :: tensor3 where
  "ex_t2 = \<lparr>shape3 = (1, 1, 2), data3 = [[[3, 4]]]\<rparr>"


definition ex_default2 :: scorer where
  "ex_default2 = \<lparr>combination = ''x,y'', part = 2, weight_vector = [1, 0, 0, 1],
                   bias = [0], activation = (\<lambda>t. t)\<rparr>"

definition ex_t3 :: tensor3 where
  "ex_t3 = \<lparr>shape3 = (1, 1, 3), data3 = [[[3, 4, 5]]]\<rparr>"

text \<open>An environment whose generator returns 1/2, 1/3, 1/4 and so on.\<close>

definition ex_world :: world where
  "ex_world = \<lparr>uninit = (\<lambda>i. 0), allocated = [], samples = (\<lambda>i. 1 / (real i + 2)),
                drawn = 0\<rparr>"

text \<open>An environment whose generator always returns 0, and a three-token scorer for
  inputs of dimension 1.\<close>

definition ex_world0 :: world where
  "ex_world0 = \<lparr>uninit = (\<lambda>i. 0), allocated = [], samples = (\<lambda>i. 0), drawn = 0\<rparr>"

definition ex_scorer1 :: scorer where
  "ex_scorer1 = \<lparr>combination = ''x,y,x*y'', part = 3, weight_vector = [1, 1, 1],
                  bias = [0], activation = (\<lambda>t. t)\<rparr>"

definition ex_params :: params where
  "ex_params = [(''tensor_1_dim'', PInt 2), (''tensor_2_dim'', PInt 2),
                (''combination'', PStr ''x,y,x*y'')]"

text \<open>The configuration that leaves every optional key out.\<close>

definition ex_params_defaults :: params where
  "ex_params_defaults = [(''tensor_1_dim'', PInt 2), (''tensor_2_dim'', PInt 2)]"

section \<open>Properties of rounding\<close>

lemma pow2_powr: "pow2 e = 2 powr of_int e"
proof (cases "0 \<le> e")
  case True
  then have "(2::real) powr of_int e = 2 powr real (nat e)" by simp
  also have "\<dots> = 2 ^ nat e" by (rule powr_realpow) simp
  finally show ?thesis using True by (simp add: pow2_def)
next
  case False
  then have "(2::real) powr of_int e = 2 powr (- real (nat (- e)))" by simp
  also have "\<dots> = inverse (2 powr real (nat (- e)))" by (rule powr_minus)
  also have "2 powr real (nat (- e)) = (2::real) ^ nat (- e)" by (rule powr_realpow) simp
  finally show ?thesis using False by (simp add: pow2_def inverse_eq_divide)
qed

lemma pow2_pos [simp]: "0 < pow2 e"
  by (simp add: pow2_powr)

lemma pow2_nonneg [simp]: "0 \<le> pow2 e"
  by (simp add: pow2_powr)

lemma pow2_add: "pow2 (a + b) = pow2 a * pow2 b"
  by (simp add: pow2_powr powr_add)

lemma pow2_mono: "a \<le> b \<Longrightarrow> pow2 a \<le> pow2 b"
  by (simp add: pow2_powr powr_mono)

lemma pow2_nat: "0 \<le> e \<Longrightarrow> pow2 e = of_int (2 ^ nat e)"
  by (simp add: pow2_def)

lemma pow2_div: "pow2 a / pow2 b = pow2 (a - b)"
proof -
  have "pow2 a = pow2 (a - b) * pow2 b" using pow2_add[of "a - b" b] by simp
  moreover have "pow2 b \<noteq> 0" by (simp add: pow2_powr)
  ultimately show ?thesis by simp
qed

lemma floor_log2:
  assumes "0 < x"
  shows "pow2 \<lfloor>log 2 x\<rfloor> \<le> x" and "x < pow2 (\<lfloor>log 2 x\<rfloor> + 1)"
  using floor_log_eq_powr_iff[of x 2 "\<lfloor>log 2 x\<rfloor>"] assms by (simp_all add: pow2_powr)

lemma floor_log2_mono: "0 < x \<Longrightarrow> x \<le> y \<Longrightarrow> \<lfloor>log 2 x\<rfloor> \<le> \<lfloor>log 2 y\<rfloor>"
  by (intro floor_mono) simp

lemma floor_log2_eq: "0 < x \<Longrightarrow> pow2 l \<le> x \<Longrightarrow> x < pow2 (l + 1) \<Longrightarrow> \<lfloor>log 2 x\<rfloor> = l"
  using floor_log_eq_powr_iff[of x 2 l] by (simp add: pow2_powr)

subsection \<open>Rounding to an integer\<close>

lemma rhe_of_int [simp]: "round_half_even (of_int k) = k"
  by (simp add: round_half_even_def)

lemma rhe_cases:
  "round_half_even q = \<lfloor>q\<rfloor> \<and> q - of_int \<lfloor>q\<rfloor> \<le> 1 / 2 \<or>
   round_half_even q = \<lfloor>q\<rfloor> + 1 \<and> 1 / 2 \<le> q - of_int \<lfloor>q\<rfloor>"
  by (auto simp: round_half_even_def Let_def)

lemma rhe_mono:
  assumes "q \<le> r"
  shows "round_half_even q \<le> round_half_even r"
proof (cases "\<lfloor>q\<rfloor> = \<lfloor>r\<rfloor>")
  case True
  have "q - of_int \<lfloor>q\<rfloor> \<le> r - of_int \<lfloor>r\<rfloor>" using assms True by simp
  then show ?thesis using True
    by (auto simp: round_half_even_def Let_def)
next
  case False
  with assms have "\<lfloor>q\<rfloor> < \<lfloor>r\<rfloor>" using floor_mono[OF assms] by simp
  moreover have "round_half_even q \<le> \<lfloor>q\<rfloor> + 1" using rhe_cases[of q] by auto
  moreover have "\<lfloor>r\<rfloor> \<le> round_half_even r" using rhe_cases[of r] by auto
  ultimately show ?thesis by simp
qed

lemma rhe_minus: "round_half_even (- q) = - round_half_even q"
proof (cases "q = of_int \<lfloor>q\<rfloor>")
  case True
  then obtain k where "q = of_int k" ..
  then have "- q = of_int (- k)" by simp
  then show ?thesis using \<open>q = of_int k\<close> by (simp only: rhe_of_int)
next
  case False
  then have "\<lceil>q\<rceil> = \<lfloor>q\<rfloor> + 1" by (simp add: ceiling_altdef)
  moreover have "\<lfloor>- q\<rfloor> = - \<lceil>q\<rceil>" by (simp add: ceiling_def)
  ultimately have fl: "\<lfloor>- q\<rfloor> = - \<lfloor>q\<rfloor> - 1" by simp
  define f where "f = \<lfloor>q\<rfloor>"
  have ev: "even (- f - 1) \<longleftrightarrow> odd f" by simp
  have nz: "q - of_int f \<noteq> 0" using False by (simp add: f_def)
  have lo: "0 \<le> q - of_int f" and hi: "q - of_int f < 1" by (simp_all add: f_def) linarith
  define r where "r = q - of_int f"
  have r': "- q - of_int (- f - 1) = 1 - r" by (simp add: r_def)
  have "round_half_even (- q) = (if 1 - r < 1 / 2 then - f - 1 else if 1 / 2 < 1 - r then - f
        else if odd f then - f - 1 else - f)"
    unfolding round_half_even_def Let_def fl f_def[symmetric] r' using ev by simp
  moreover have "round_half_even q = (if r < 1 / 2 then f else if 1 / 2 < r then f + 1
        else if even f then f else f + 1)"
    unfolding round_half_even_def Let_def f_def[symmetric] r_def by simp
  ultimately show ?thesis by (auto simp: not_less)
qed

lemma rhe_le_int: "q \<le> of_int k \<Longrightarrow> round_half_even q \<le> k"
  using rhe_mono[of q "of_int k"] by simp

lemma rhe_ge_int: "of_int k \<le> q \<Longrightarrow> k \<le> round_half_even q"
  using rhe_mono[of "of_int k" q] by simp


subsection \<open>Rounding to a floating-point format\<close>

lemma round_to_0 [simp]: "round_to p emin 0 = 0"
  by (simp add: round_to_def)

lemma ulp_exp_minus [simp]: "ulp_exp p emin (- x) = ulp_exp p emin x"
  by (simp add: ulp_exp_def)

lemma round_to_minus: "round_to p emin (- x) = - round_to p emin x"
  using rhe_minus[of "x / pow2 (ulp_exp p emin x)"] by (simp add: round_to_def)

lemma ulp_exp_mono:
  "0 < x \<Longrightarrow> x \<le> y \<Longrightarrow> ulp_exp p emin x \<le> ulp_exp p emin y"
  using floor_log2_mono[of x y] by (simp add: ulp_exp_def)

lemma quotient_bounds:
  assumes "0 < x"
  shows "pow2 (\<lfloor>log 2 x\<rfloor> - e) \<le> x / pow2 e" and "x / pow2 e < pow2 (\<lfloor>log 2 x\<rfloor> + 1 - e)"
proof -
  have "pow2 \<lfloor>log 2 x\<rfloor> / pow2 e \<le> x / pow2 e"
    using floor_log2(1)[OF assms] by (rule divide_right_mono) simp
  then show "pow2 (\<lfloor>log 2 x\<rfloor> - e) \<le> x / pow2 e" by (simp add: pow2_div)
  have "x / pow2 e < pow2 (\<lfloor>log 2 x\<rfloor> + 1) / pow2 e"
    using floor_log2(2)[OF assms] by (rule divide_strict_right_mono) simp
  then show "x / pow2 e < pow2 (\<lfloor>log 2 x\<rfloor> + 1 - e)" by (simp add: pow2_div)
qed

lemma round_to_nonneg: "0 \<le> x \<Longrightarrow> 0 \<le> round_to p emin x"
proof -
  assume "0 \<le> x"
  then have "of_int 0 \<le> x / pow2 (ulp_exp p emin x)" by (simp add: divide_nonneg_pos)
  then have "0 \<le> round_half_even (x / pow2 (ulp_exp p emin x))" by (rule rhe_ge_int)
  then show ?thesis by (simp add: round_to_def)
qed

lemma round_to_lower:
  assumes "0 < x" and "1 \<le> p" and "ulp_exp p emin x = \<lfloor>log 2 x\<rfloor> - int p + 1"
  shows "pow2 \<lfloor>log 2 x\<rfloor> \<le> round_to p emin x"
proof -
  define l where "l = \<lfloor>log 2 x\<rfloor>"
  define E where "E = ulp_exp p emin x"
  have E: "E = l - int p + 1" using assms(3) by (simp add: E_def l_def)
  have "l - E = int p - 1" using E by simp
  then have "pow2 (l - E) = of_int (2 ^ nat (int p - 1))" using assms(2) by (simp add: pow2_nat)
  then have "of_int (2 ^ nat (int p - 1)) \<le> x / pow2 E"
    using quotient_bounds(1)[OF assms(1), of E] by (simp add: l_def)
  then have "2 ^ nat (int p - 1) \<le> round_half_even (x / pow2 E)" by (rule rhe_ge_int)
  then have "of_int (2 ^ nat (int p - 1)) * pow2 E \<le> of_int (round_half_even (x / pow2 E)) * pow2 E"
    by (intro mult_right_mono) (simp_all add: less_imp_le)
  moreover have "of_int (2 ^ nat (int p - 1)) * pow2 E = pow2 l"
  proof -
    have "pow2 (int p - 1) = of_int (2 ^ nat (int p - 1))" using assms(2) by (intro pow2_nat) simp
    moreover have "pow2 (int p - 1 + E) = pow2 (int p - 1) * pow2 E" by (rule pow2_add)
    moreover have "int p - 1 + E = l" using E by simp
    ultimately show ?thesis by (simp only:)
  qed
  moreover have "round_to p emin x = of_int (round_half_even (x / pow2 E)) * pow2 E"
    using assms(1) by (simp add: round_to_def E_def)
  ultimately show ?thesis by (simp only: l_def)
qed

lemma round_to_upper:
  assumes "0 < x"
  shows "round_to p emin x \<le> pow2 (max (\<lfloor>log 2 x\<rfloor> + 1) (ulp_exp p emin x))"
proof -
  define l where "l = \<lfloor>log 2 x\<rfloor>"
  define E where "E = ulp_exp p emin x"
  define K where "K = max (l + 1) E"
  have "l + 1 - E \<le> K - E" by (simp add: K_def)
  then have "pow2 (l + 1 - E) \<le> pow2 (K - E)" by (rule pow2_mono)
  moreover have "0 \<le> K - E" by (simp add: K_def)
  then have "pow2 (K - E) = of_int (2 ^ nat (K - E))" by (rule pow2_nat)
  ultimately have "x / pow2 E \<le> of_int (2 ^ nat (K - E))"
    using quotient_bounds(2)[OF assms, of E] by (simp add: l_def)
  then have "round_half_even (x / pow2 E) \<le> 2 ^ nat (K - E)" by (rule rhe_le_int)
  then have "of_int (round_half_even (x / pow2 E)) * pow2 E \<le> of_int (2 ^ nat (K - E)) * pow2 E"
    by (intro mult_right_mono) (simp_all add: less_imp_le)
  moreover have "of_int (2 ^ nat (K - E)) * pow2 E = pow2 K"
  proof -
    have "pow2 (K - E) = of_int (2 ^ nat (K - E))" using \<open>0 \<le> K - E\<close> by (rule pow2_nat)
    moreover have "pow2 (K - E + E) = pow2 (K - E) * pow2 E" by (rule pow2_add)
    moreover have "K - E + E = K" by simp
    ultimately show ?thesis by (simp only:)
  qed
  moreover have "round_to p emin x = of_int (round_half_even (x / pow2 E)) * pow2 E"
    using assms by (simp add: round_to_def E_def)
  ultimately show ?thesis by (simp only: K_def l_def E_def)
qed

lemma round_to_mono_pos:
  assumes "0 < x" and "x \<le> y" and "1 \<le> p"
  shows "round_to p emin x \<le> round_to p emin y"
proof (cases "ulp_exp p emin x = ulp_exp p emin y")
  case True
  define E where "E = ulp_exp p emin y"
  have "x / pow2 E \<le> y / pow2 E" using assms(2) by (simp add: divide_right_mono less_imp_le)
  then have "round_half_even (x / pow2 E) \<le> round_half_even (y / pow2 E)" by (rule rhe_mono)
  then have "of_int (round_half_even (x / pow2 E)) * pow2 E \<le> of_int (round_half_even (y / pow2 E)) * pow2 E"
    by (intro mult_right_mono) (simp_all add: less_imp_le)
  then show ?thesis using assms True by (simp add: round_to_def E_def)
next
  case False
  have y: "0 < y" using assms by simp
  have lt: "ulp_exp p emin x < ulp_exp p emin y"
    using False ulp_exp_mono[OF assms(1,2), of p emin] by simp
  then have norm: "ulp_exp p emin y = \<lfloor>log 2 y\<rfloor> - int p + 1"
    using y by (auto simp: ulp_exp_def max_def split: if_splits)
  have ll: "\<lfloor>log 2 x\<rfloor> < \<lfloor>log 2 y\<rfloor>"
    using lt assms(1) y by (auto simp: ulp_exp_def max_def split: if_splits)
  have "max (\<lfloor>log 2 x\<rfloor> + 1) (ulp_exp p emin x) \<le> \<lfloor>log 2 y\<rfloor>"
    using ll lt norm assms(3) by simp
  then have "pow2 (max (\<lfloor>log 2 x\<rfloor> + 1) (ulp_exp p emin x)) \<le> pow2 \<lfloor>log 2 y\<rfloor>"
    by (rule pow2_mono)
  with round_to_upper[OF assms(1), of p emin] round_to_lower[OF y assms(3) norm]
  show ?thesis by linarith
qed

lemma round_to_mono:
  assumes "x \<le> y" and "1 \<le> p"
  shows "round_to p emin x \<le> round_to p emin y"
proof -
  consider "0 < x" | "x = 0" | "x < 0" "0 \<le> y" | "x < 0" "y < 0" by linarith
  then show ?thesis
  proof cases
    case 1
    then show ?thesis using round_to_mono_pos[OF _ assms] by simp
  next
    case 2
    then show ?thesis using round_to_nonneg[of y p emin] assms(1) by simp
  next
    case 3
    have "0 \<le> round_to p emin (- x)" using 3(1) by (intro round_to_nonneg) simp
    then have "round_to p emin x \<le> 0" using round_to_minus[of p emin x] by simp
    with round_to_nonneg[OF 3(2), of p emin] show ?thesis by simp
  next
    case 4
    have "round_to p emin (- y) \<le> round_to p emin (- x)"
      using 4 assms by (intro round_to_mono_pos) simp_all
    then show ?thesis by (simp add: round_to_minus)
  qed
qed


subsection \<open>Representable numbers are fixed\<close>

lemma pow2_less_cancel: "pow2 a < pow2 b \<Longrightarrow> a < b"
  using pow2_mono[of b a] by (cases "a < b") simp_all

lemma round_to_fix:
  assumes x: "x = of_int m * pow2 e'" and m: "\<bar>m\<bar> < 2 ^ p" and e': "emin \<le> e'"
  shows "round_to p emin x = x"
proof (cases "m = 0")
  case True
  then show ?thesis using x by simp
next
  case False
  define E where "E = ulp_exp p emin x"
  define l where "l = \<lfloor>log 2 \<bar>x\<bar>\<rfloor>"
  have ax: "\<bar>x\<bar> = of_int \<bar>m\<bar> * pow2 e'" using x by (simp add: abs_mult)
  have pos: "0 < \<bar>x\<bar>" using False ax by simp
  have "of_int \<bar>m\<bar> < (of_int (2 ^ p) :: real)" using m by (simp only: of_int_less_iff)
  then have "of_int \<bar>m\<bar> * pow2 e' < of_int (2 ^ p) * pow2 e'"
    by (rule mult_strict_right_mono) simp
  moreover have "pow2 (int p) = of_int (2 ^ nat (int p))" by (rule pow2_nat) simp
  moreover have "pow2 (int p + e') = pow2 (int p) * pow2 e'" by (rule pow2_add)
  ultimately have "\<bar>x\<bar> < pow2 (int p + e')" using ax by simp
  with floor_log2(1)[OF pos] have "pow2 l < pow2 (int p + e')" by (simp add: l_def)
  then have "l < int p + e'" by (rule pow2_less_cancel)
  then have E: "E \<le> e'" using e' by (simp add: E_def ulp_exp_def l_def)
  then have "pow2 (e' - E) = of_int (2 ^ nat (e' - E))" by (intro pow2_nat) simp
  moreover have "pow2 e' / pow2 E = pow2 (e' - E)" by (rule pow2_div)
  ultimately have pq: "pow2 e' / pow2 E = of_int (2 ^ nat (e' - E))" by simp
  have "x / pow2 E = of_int m * (pow2 e' / pow2 E)" using x by simp
  then have "x / pow2 E = of_int (m * 2 ^ nat (e' - E))" by (simp only: pq of_int_mult)
  then have "round_half_even (x / pow2 E) = m * 2 ^ nat (e' - E)" by (simp only: rhe_of_int)
  then have "of_int (round_half_even (x / pow2 E)) * pow2 E = x / pow2 E * pow2 E"
    using \<open>x / pow2 E = of_int (m * 2 ^ nat (e' - E))\<close> by simp
  also have "\<dots> = x" by (simp add: pow2_powr)
  finally show ?thesis using pos by (simp add: round_to_def E_def)
qed

lemma round_to_representable_pos:
  assumes "0 < x" and "1 \<le> p"
  shows "\<exists>m e. round_to p emin x = of_int m * pow2 e \<and> \<bar>m\<bar> < 2 ^ p \<and> emin \<le> e"
proof -
  define E where "E = ulp_exp p emin x"
  define l where "l = \<lfloor>log 2 x\<rfloor>"
  define k where "k = round_half_even (x / pow2 E)"
  have r: "round_to p emin x = of_int k * pow2 E"
    using assms(1) by (simp add: round_to_def E_def k_def)
  have Emin: "emin \<le> E" by (simp add: E_def ulp_exp_def)
  have "l + 1 - E \<le> int p" using assms(1) by (simp add: E_def ulp_exp_def l_def)
  then have "pow2 (l + 1 - E) \<le> pow2 (int p)" by (rule pow2_mono)
  moreover have "pow2 (int p) = of_int (2 ^ nat (int p))" by (rule pow2_nat) simp
  ultimately have "x / pow2 E \<le> of_int (2 ^ p)"
    using quotient_bounds(2)[OF assms(1), of E] by (simp add: l_def)
  then have hi: "k \<le> 2 ^ p" unfolding k_def by (rule rhe_le_int)
  have "of_int 0 \<le> x / pow2 E" using assms(1) by (simp add: divide_nonneg_pos less_imp_le)
  then have lo: "0 \<le> k" unfolding k_def by (rule rhe_ge_int)
  show ?thesis
  proof (cases "k = 2 ^ p")
    case False
    with hi lo have "\<bar>k\<bar> < 2 ^ p" by simp
    with r Emin show ?thesis by blast
  next
    case True
    obtain p' where p': "p = Suc p'" using assms(2) by (cases p) auto
    have "pow2 (E + 1) = pow2 E * pow2 1" by (rule pow2_add)
    then have "pow2 (E + 1) = 2 * pow2 E" by (simp add: pow2_def)
    then have "round_to p emin x = of_int (2 ^ p') * pow2 (E + 1)" using r True p' by simp
    moreover have "\<bar>2 ^ p' :: int\<bar> < 2 ^ p" using p' by simp
    moreover have "emin \<le> E + 1" using Emin by simp
    ultimately show ?thesis by blast
  qed
qed

lemma round_to_representable:
  assumes "1 \<le> p"
  shows "\<exists>m e. round_to p emin x = of_int m * pow2 e \<and> \<bar>m\<bar> < 2 ^ p \<and> emin \<le> e"
proof -
  consider "0 < x" | "x = 0" | "x < 0" by linarith
  then show ?thesis
  proof cases
    case 1
    then show ?thesis using round_to_representable_pos[OF _ assms] by blast
  next
    case 2
    have "round_to p emin x = of_int 0 * pow2 emin" using 2 by simp
    moreover have "\<bar>0 :: int\<bar> < 2 ^ p" by simp
    ultimately show ?thesis by blast
  next
    case 3
    then have "0 < - x" by simp
    from round_to_representable_pos[OF this assms, of emin]
    obtain m e where "round_to p emin (- x) = of_int m * pow2 e" "\<bar>m\<bar> < 2 ^ p" "emin \<le> e"
      by blast
    then have "round_to p emin x = of_int (- m) * pow2 e" "\<bar>- m\<bar> < 2 ^ p" "emin \<le> e"
      by (simp_all add: round_to_minus)
    then show ?thesis by blast
  qed
qed

lemma round_to_idem: "1 \<le> p \<Longrightarrow> round_to p emin (round_to p emin x) = round_to p emin x"
  using round_to_representable[of p emin x] round_to_fix[of _ _ _ p emin] by blast

lemma round_to_double:
  assumes "1 \<le> p"
  shows "round_to p emin (2 * round_to p emin x) = 2 * round_to p emin x"
proof -
  from round_to_representable[OF assms, of emin x]
  obtain m e where r: "round_to p emin x = of_int m * pow2 e" "\<bar>m\<bar> < 2 ^ p" "emin \<le> e"
    by blast
  have "pow2 (e + 1) = pow2 e * pow2 1" by (rule pow2_add)
  then have "pow2 (e + 1) = 2 * pow2 e" by (simp add: pow2_def)
  then have "2 * round_to p emin x = of_int m * pow2 (e + 1)" using r(1) by simp
  moreover have "emin \<le> e + 1" using r(3) by simp
  ultimately show ?thesis using round_to_fix[of _ m "e + 1" p emin] r(2) by blast
qed

lemma round_to_int:
  "\<bar>n\<bar> < 2 ^ p \<Longrightarrow> emin \<le> 0 \<Longrightarrow> round_to p emin (of_int n) = of_int n"
  using round_to_fix[of "of_int n" n 0 p emin] by (simp add: pow2_def)

subsection \<open>Evaluating a rounding\<close>

lemma rhe_near: "\<bar>q - of_int m\<bar> < 1 / 2 \<Longrightarrow> round_half_even q = m"
proof -
  assume a: "\<bar>q - of_int m\<bar> < 1 / 2"
  show ?thesis
  proof (cases "of_int m \<le> q")
    case True
    with a have "\<lfloor>q\<rfloor> = m" by (intro floor_unique) linarith+
    with a True show ?thesis by (simp add: round_half_even_def Let_def)
  next
    case False
    have "of_int (m - 1) \<le> q" "q < of_int (m - 1) + 1" using a False by auto
    then have f: "\<lfloor>q\<rfloor> = m - 1" by (rule floor_unique)
    have "1 / 2 < q - of_int (m - 1)" using a False by simp
    with f show ?thesis by (simp add: round_half_even_def Let_def)
  qed
qed

lemma round_to_eval:
  assumes "0 < x" and "pow2 l \<le> x" and "x < pow2 (l + 1)"
    and "E = max (l - int p + 1) emin" and "\<bar>x / pow2 E - of_int m\<bar> < 1 / 2"
  shows "round_to p emin x = of_int m * pow2 E"
proof -
  have "\<lfloor>log 2 x\<rfloor> = l" using assms(1-3) by (rule floor_log2_eq)
  then have "ulp_exp p emin x = E" using assms(1,4) by (simp add: ulp_exp_def)
  then show ?thesis using assms(1) rhe_near[OF assms(5)] by (simp add: round_to_def)
qed

subsection \<open>The two formats\<close>

lemma float32_0 [simp]: "float32 0 = 0"
  by (simp add: float32_def)

lemma float32_minus: "float32 (- x) = - float32 x"
  by (simp add: float32_def round_to_minus)

lemma float32_mono: "x \<le> y \<Longrightarrow> float32 x \<le> float32 y"
  by (simp add: float32_def round_to_mono)

lemma float32_nonneg: "0 \<le> x \<Longrightarrow> 0 \<le> float32 x"
  by (simp add: float32_def round_to_nonneg)

lemma float32_idem: "float32 (float32 x) = float32 x"
  by (simp add: float32_def round_to_idem)

lemma float32_double: "float32 (2 * float32 x) = 2 * float32 x"
  by (simp add: float32_def round_to_double)

lemma float64_nonneg: "0 \<le> x \<Longrightarrow> 0 \<le> float64 x"
  by (simp add: float64_def round_to_nonneg)

lemma float32_Ints:
  assumes "x \<in> \<int>" and "\<bar>x\<bar> < 2 ^ 24"
  shows "float32 x = x"
proof -
  from assms(1) obtain n where n: "x = of_int n" by (rule Ints_cases)
  have "\<bar>real_of_int n\<bar> < real_of_int (2 ^ 24)" using assms(2) n by simp
  then have "\<bar>n\<bar> < 2 ^ 24" by (simp only: of_int_abs[symmetric] of_int_less_iff)
  then show ?thesis using n round_to_int[of n 24 "- 149"] by (simp add: float32_def)
qed

subsection \<open>The left-to-right kernel is exact on small integers\<close>



subsection \<open>The standard deviation of three weights\<close>

lemma sqrt_three_halves:
  "11031521092846171 / 9007199254740992 < sqrt (3 / 2)"
  "sqrt (3 / 2) < 11031521092846173 / 9007199254740992"
proof -
  show "11031521092846171 / 9007199254740992 < sqrt (3 / 2)"
    by (rule real_less_rsqrt) (simp add: power2_eq_square)
  show "sqrt (3 / 2) < 11031521092846173 / 9007199254740992"
    by (rule real_less_lsqrt) (simp_all add: power2_eq_square)
qed

lemma float64_three_halves: "float64 (3 / 2) = 3 / 2"
proof -
  have "(3 / 2 :: real) = of_int 3 * pow2 (- 1)" by (simp add: pow2_def)
  then show ?thesis unfolding float64_def by (rule round_to_fix) simp_all
qed

lemma std_of_3: "std_of 3 = 5515760546423086 / 4503599627370496"
proof -
  have s: "0 < sqrt (3 / 2 :: real)" by simp
  have lo: "pow2 0 \<le> sqrt (3 / 2)" using sqrt_three_halves(1) by (simp add: pow2_def)
  have hi: "sqrt (3 / 2) < pow2 (0 + 1)" using sqrt_three_halves(2) by (simp add: pow2_def)
  have E: "(- 52 :: int) = max (0 - int 53 + 1) (- 1074)" by simp
  have b: "11031521092846171 < sqrt (3 / 2) * 9007199254740992"
    "sqrt (3 / 2) * 9007199254740992 < 11031521092846173"
    using sqrt_three_halves by simp_all
  have q: "sqrt (3 / 2) / pow2 (- 52) = sqrt (3 / 2) * 4503599627370496"
    by (simp add: pow2_def)
  have near: "\<bar>sqrt (3 / 2) / pow2 (- 52) - of_int 5515760546423086\<bar> < 1 / 2"
    unfolding q abs_less_iff using b by simp
  have "float64 (sqrt (3 / 2)) = of_int 5515760546423086 * pow2 (- 52)"
    unfolding float64_def by (rule round_to_eval[OF s lo hi E near])
  then show ?thesis by (simp add: std_of_def float64_three_halves pow2_def)
qed

lemma float32_std_of_3: "float32 (std_of 3) = 10273905 / 8388608"
proof -
  let ?x = "5515760546423086 / 4503599627370496 :: real"
  have s: "0 < ?x" by simp
  have lo: "pow2 0 \<le> ?x" by (simp add: pow2_def)
  have hi: "?x < pow2 (0 + 1)" by (simp add: pow2_def)
  have E: "(- 23 :: int) = max (0 - int 24 + 1) (- 149)" by simp
  have near: "\<bar>?x / pow2 (- 23) - of_int 10273905\<bar> < 1 / 2"
    by (simp add: pow2_def abs_less_iff)
  have "float32 ?x = of_int 10273905 * pow2 (- 23)"
    unfolding float32_def by (rule round_to_eval[OF s lo hi E near])
  then show ?thesis by (simp add: std_of_3 pow2_def)
qed

section \<open>Tensor operations on well-formed tensors\<close>

text \<open>
  Each operation of the tensor library is characterised on well-formed arguments: when
  it succeeds, the shape of its result, that the result is well formed, and every entry
  of the result. A broadcast dimension of size 1 is read at index 0.
\<close>


lemma length_expand [simp]: "length (expand n xs) = n"
  by (simp add: expand_def)






















subsection \<open>When no operation rounds\<close>








section \<open>Scoring\<close>

lemmas forward_eval =
  forward_def Let_def last_dim_def slice_def matmul_vec_def unsqueeze_1_def
  unsqueeze_2_def mul_vec_def broadcast_dim_def expand_def permute_021_def matmul_def
  add_def expand3_def upt_conv_Cons wf3_def

lemmas float_eval = fdot_def fmul_def fadd_def float32_Ints




subsection \<open>How scoring fails\<close>

text \<open>The tensor library fails with a RuntimeError only.\<close>

lemma matmul_vec_error: "matmul_vec ip t v = Inl e \<Longrightarrow> e = RuntimeError"
  by (auto simp: matmul_vec_def split: prod.splits if_splits)

lemma mul_vec_error: "mul_vec t v = Inl e \<Longrightarrow> e = RuntimeError"
  by (auto simp: mul_vec_def split: prod.splits option.splits)

lemma matmul_error: "matmul ip a b = Inl e \<Longrightarrow> e = RuntimeError"
  by (auto simp: matmul_def split: prod.splits option.splits if_splits)

lemma add_error: "add a b = Inl e \<Longrightarrow> e = RuntimeError"
  by (auto simp: add_def split: prod.splits option.splits)

lemma forward_assert_fails:
  "last_dim t1 * part s \<noteq> length (weight_vector s) \<Longrightarrow>
   forward ip s t1 t2 = Inl (AssertionError None)"
  by (simp add: forward_def Let_def)

text \<open>Once the first assertion has passed, the second one cannot fail: the length of the
  weight vector is a multiple of \<open>part\<close>.\<close>

lemma forward_error_cases:
  assumes "last_dim t1 * part s = length (weight_vector s)" and "forward ip s t1 t2 = Inl e"
  shows "e = RuntimeError \<or> (e = ZeroDivisionError \<and> part s = 0)"
proof (cases "part s = 0")
  case True
  with assms show ?thesis by (simp add: forward_def Let_def)
next
  case False
  have md: "length (weight_vector s) mod part s = 0"
    using assms(1)[symmetric] by simp
  show ?thesis
    using assms False md
    by (auto simp: forward_def Let_def split: sum.splits
        dest: matmul_vec_error mul_vec_error matmul_error add_error)
qed

lemma forward_second_input_mismatch:
  assumes "last_dim t1 * part s = length (weight_vector s)" and "2 \<le> part s"
    and "last_dim t2 \<noteq> last_dim t1"
  shows "forward ip s t1 t2 = Inl RuntimeError"
proof -
  obtain B1 L1 d where s1: "shape3 t1 = (B1, L1, d)" by (cases "shape3 t1") auto
  obtain B2 L2 d2 where s2: "shape3 t2 = (B2, L2, d2)" by (cases "shape3 t2") auto
  have n: "length (weight_vector s) = d * part s" using assms(1) s1 by (simp add: last_dim_def)
  have dd: "d2 \<noteq> d" using assms(3) s1 s2 by (simp add: last_dim_def)
  have "d * 2 \<le> d * part s" using assms(2) by simp
  then have le: "2 * d \<le> length (weight_vector s)" using n by simp
  have p: "0 < part s" using assms(2) by simp
  have la: "length (slice 0 d (weight_vector s)) = d"
    and lb: "length (slice d (2 * d) (weight_vector s)) = d"
    using le by (simp_all add: slice_def)
  have dv: "d * part s div part s = d" using p by simp
  show ?thesis
    using s1 s2 p dd la lb
    by (simp add: forward_def Let_def last_dim_def n dv matmul_vec_def)
qed

text \<open>
  C2. The claim promises an array of shape \<open>[B, L1, L2]\<close> from every scorer that satisfies
  \<open>d * part = len(weight_vector)\<close>. The code does not deliver it for the combinations
  the class documents: with one or two tokens, among them the default \<open>x,y\<close>, the
  second or the third slice of the weight vector is empty, and for every input of
  dimension \<open>d > 0\<close> that satisfies the precondition the tensor library raises a
  RuntimeError, whatever the weights.
\<close>

theorem forward_fails_below_three_tokens:
  assumes s1: "shape3 t1 = (B, L1, d)" and s2: "shape3 t2 = (B, L2, d)"
    and p: "0 < part s" and pre: "d * part s = length (weight_vector s)"
    and small: "part s < 3" and d: "0 < d"
  shows "forward ip s t1 t2 = Inl RuntimeError"
proof -
  have "part s = 1 \<or> part s = 2" using p small by arith
  then show ?thesis
  proof
    assume p1: "part s = 1"
    then have n: "length (weight_vector s) = d" using pre by simp
    show ?thesis using s1 s2 d n p1
      by (simp add: forward_def Let_def last_dim_def slice_def matmul_vec_def)
  next
    assume p2: "part s = 2"
    then have n: "length (weight_vector s) = d * 2" using pre by simp
    show ?thesis using s1 s2 d p2
      by (simp add: forward_def Let_def last_dim_def slice_def matmul_vec_def n mul_vec_def
          broadcast_dim_def matmul_def permute_021_def)
  qed
qed

text \<open>The scorer of the default combination for dimension 2, on the inputs of the worked
  example.\<close>

theorem forward_fails_below_three_tokens_witness:
  "shape3 ex_t1 = (1, 1, 2) \<and> shape3 ex_t2 = (1, 1, 2) \<and> 0 < part ex_default2 \<and>
   2 * part ex_default2 = length (weight_vector ex_default2) \<and> part ex_default2 < 3 \<and>
   (0::nat) < 2 \<and> combination ex_default2 = ''x,y'' \<and>
   forward fdot ex_default2 ex_t1 ex_t2 = Inl RuntimeError"
proof -
  have h: "shape3 ex_t1 = (1, 1, 2)" "shape3 ex_t2 = (1, 1, 2)" "0 < part ex_default2"
    "2 * part ex_default2 = length (weight_vector ex_default2)" "part ex_default2 < 3"
    "(0::nat) < 2"
    by (simp_all add: ex_t1_def ex_t2_def ex_default2_def)
  have c: "combination ex_default2 = ''x,y''" by (simp add: ex_default2_def)
  from forward_fails_below_three_tokens[OF h, of fdot] h c show ?thesis by blast
qed

text \<open>
  C4. The stored bias and activation have no effect on scoring: whatever the bias and the
  activation of a scorer are replaced by, \<open>forward\<close> returns the same outcome on the same
  inputs.
\<close>

theorem forward_ignores_bias_and_activation:
  "forward ip (s\<lparr>bias := b, activation := a\<rparr>) t1 t2 = forward ip s t1 t2"
  by (simp add: forward_def)

theorem forward_ignores_bias_and_activation_witness:
  "forward fdot (ex_scorer\<lparr>bias := [5], activation := (\<lambda>t. ex_t3)\<rparr>) ex_t1 ex_t2 =
     Inr \<lparr>shape3 = (1, 1, 1), data3 = [[[16]]]\<rparr>"
proof -
  have "forward fdot (ex_scorer\<lparr>bias := [5], activation := (\<lambda>t. ex_t3)\<rparr>) ex_t1 ex_t2 =
        forward fdot ex_scorer ex_t1 ex_t2"
    by (rule forward_ignores_bias_and_activation)
  also have "\<dots> = Inr \<lparr>shape3 = (1, 1, 1), data3 = [[[16]]]\<rparr>"
    by (simp add: forward_eval float_eval ex_scorer_def ex_t1_def ex_t2_def)
  finally show ?thesis .
qed

text \<open>
  C6. The claim promises an assertion failure that carries a diagnostic message. The
  code has such a message, on its second assertion, which can never fail: when the
  weight length is not a multiple of \<open>part\<close>, the first assertion, written without a
  message, has failed already. So no call of \<open>forward\<close> ends in an assertion failure
  with a message; on a \<open>tensor_1\<close> of last dimension 3 the three-token scorer with 6
  weights fails with the bare assertion.
\<close>

theorem assertion_message_unreachable:
  "(\<forall>ip s t1 t2 msg. forward ip s t1 t2 \<noteq> Inl (AssertionError (Some msg))) \<and>
   last_dim ex_t3 * part ex_scorer \<noteq> length (weight_vector ex_scorer) \<and>
   forward fdot ex_scorer ex_t3 ex_t2 = Inl (AssertionError None)"
proof (intro conjI allI)
  fix ip s t1 t2 msg
  show "forward ip s t1 t2 \<noteq> Inl (AssertionError (Some msg))"
  proof (cases "last_dim t1 * part s = length (weight_vector s)")
    case True
    show ?thesis
    proof
      assume "forward ip s t1 t2 = Inl (AssertionError (Some msg))"
      from forward_error_cases[OF True this] show False by simp
    qed
  next
    case False
    then show ?thesis by (simp add: forward_assert_fails)
  qed
  show "last_dim ex_t3 * part ex_scorer \<noteq> length (weight_vector ex_scorer)"
    by (simp add: last_dim_def ex_t3_def ex_scorer_def)
  show "forward fdot ex_scorer ex_t3 ex_t2 = Inl (AssertionError None)"
    by (simp add: forward_eval ex_scorer_def ex_t3_def ex_t2_def)
qed

text \<open>
  C10. The shape assertions of \<open>forward\<close> constrain only \<open>tensor_1\<close>: whether an assertion
  fails is decided by \<open>tensor_1\<close>'s last dimension, \<open>part\<close> and the length of the weight
  vector alone. Hence for a \<open>tensor_2\<close> whose last dimension differs from \<open>tensor_1\<close>'s,
  no assertion fails when \<open>tensor_1\<close> satisfies the precondition; with two or more tokens
  the mismatch surfaces as the tensor library's RuntimeError.
\<close>

theorem assertions_ignore_tensor_2:
  "((\<exists>m. forward ip s t1 t2 = Inl (AssertionError m)) \<longleftrightarrow>
      last_dim t1 * part s \<noteq> length (weight_vector s))
 \<and> (last_dim t1 * part s = length (weight_vector s) \<and> 2 \<le> part s \<and>
      last_dim t2 \<noteq> last_dim t1 \<longrightarrow> forward ip s t1 t2 = Inl RuntimeError)"
  using forward_assert_fails[of t1 s ip t2] forward_error_cases[of t1 s ip t2]
    forward_second_input_mismatch[of t1 s t2 ip] by auto

theorem assertions_ignore_tensor_2_witness:
  "last_dim ex_t1 * part ex_scorer = length (weight_vector ex_scorer) \<and> 2 \<le> part ex_scorer \<and>
   last_dim ex_t3 \<noteq> last_dim ex_t1 \<and>
   (\<forall>m. forward fdot ex_scorer ex_t1 ex_t3 \<noteq> Inl (AssertionError m)) \<and>
   forward fdot ex_scorer ex_t1 ex_t3 = Inl RuntimeError"
proof -
  have h: "last_dim ex_t1 * part ex_scorer = length (weight_vector ex_scorer)"
    "2 \<le> part ex_scorer" "last_dim ex_t3 \<noteq> last_dim ex_t1"
    by (simp_all add: last_dim_def ex_t3_def ex_t1_def ex_scorer_def)
  from assertions_ignore_tensor_2[where ip = fdot and s = ex_scorer and ?t1.0 = ex_t1
      and ?t2.0 = ex_t3] h
  show ?thesis by blast
qed

section \<open>Construction\<close>


lemma init_Inr:
  assumes "init g a b c act w = (Inr s, w')"
  shows "part s = length (str_split CHR '','' c)" and "combination s = c"
    and "activation s = act" and "length (bias s) = 1"
    and "\<exists>n. g c [a, b] = Inr n \<and> 0 \<le> n \<and> length (weight_vector s) = nat n \<and>
           allocated w' = allocated w @ [nat n, 1]"
  using assms
  by (auto simp: init_def Let_def torch_Tensor_def reset_parameters_def uniform_def
      split: sum.splits if_splits prod.splits)


lemma init_ok:
  assumes "g c [a, b] = Inr n" and "0 \<le> n"
  shows "\<exists>s w'. init g a b c act w = (Inr s, w') \<and> length (weight_vector s) = nat n \<and>
           length (bias s) = 1 \<and> part s = length (str_split CHR '','' c) \<and>
           allocated w' = allocated w @ [nat n, 1]"
  using assms
  by (simp add: init_def Let_def torch_Tensor_def reset_parameters_def uniform_def)

lemmas config_eval =
  get_combined_dim_def combination_dim_def recognized_def



subsection \<open>Parameter initialisation\<close>

lemma uniform_range:
  assumes "\<forall>i. 0 \<le> samples w i \<and> samples w i < 1" and "0 \<le> std"
    and "x \<in> set (fst (uniform (- std) std n w))"
  shows "- float32 std \<le> x \<and> x \<le> float32 std"
proof -
  define b where "b = float32 std"
  have b0: "0 \<le> b" using assms(2) by (simp add: b_def float32_nonneg)
  have a: "float32 (- std) = - b" by (simp add: b_def float32_minus)
  have span: "float32 (2 * b) = 2 * b"
    using float32_double[of std] by (simp add: b_def)
  have fb: "float32 b = b" by (simp add: b_def float32_idem)
  from assms(3) obtain i where
    x: "x = fadd (fmul (samples w (drawn w + i)) (float32 (2 * b))) (- b)"
    by (auto simp: uniform_def Let_def a b_def[symmetric])
  define u where "u = samples w (drawn w + i)"
  have u: "0 \<le> u" "u \<le> 1" using assms(1) by (auto simp: u_def less_imp_le)
  define v where "v = float32 (u * (2 * b))"
  have "0 \<le> u * (2 * b)" using u b0 by simp
  then have v0: "0 \<le> v" unfolding v_def by (rule float32_nonneg)
  have "u * (2 * b) \<le> 1 * (2 * b)" using u b0 by (intro mult_right_mono) simp_all
  then have "v \<le> float32 (2 * b)" unfolding v_def by (intro float32_mono) simp
  then have v1: "v \<le> 2 * b" using span by simp
  have xv: "x = float32 (v + - b)" by (simp add: x fadd_def fmul_def span v_def u_def)
  have "float32 (- b) \<le> x" unfolding xv using v0 by (intro float32_mono) simp
  moreover have "x \<le> float32 b" unfolding xv using v1 by (intro float32_mono) simp
  ultimately show ?thesis by (simp add: float32_minus fb b_def[symmetric])
qed

lemma std_of_nonneg: "0 \<le> std_of n"
  unfolding std_of_def by (intro float64_nonneg real_sqrt_ge_zero) simp

text \<open>
  C5 (amended). Provided the generator returns unit samples in \<open>[0, 1)\<close>, after
  \<open>reset_parameters\<close> the weight vector has its old length, every entry of it lies in
  \<open>[-s, s]\<close> where \<open>s\<close> is the float32 number nearest to the Python float
  \<open>std = sqrt (6 / (len(weight_vector) + 1))\<close> (that is \<open>sqrt (6 / (3 * d + 1))\<close> when the
  length is \<open>3 * d\<close>), and every entry of the bias is 0: the bias of a constructed scorer
  is \<open>[0]\<close>.
\<close>

theorem reset_parameters_range:
  assumes "\<forall>i. 0 \<le> samples w i \<and> samples w i < 1"
  shows "length (weight_vector (fst (reset_parameters self w))) = length (weight_vector self)
     \<and> (\<forall>x \<in> set (weight_vector (fst (reset_parameters self w))).
           - float32 (std_of (length (weight_vector self))) \<le> x \<and>
           x \<le> float32 (std_of (length (weight_vector self))))
     \<and> (length (weight_vector self) = 3 * d \<longrightarrow>
          (\<forall>x \<in> set (weight_vector (fst (reset_parameters self w))).
             - float32 (float64 (sqrt (float64 (6 / (3 * real d + 1))))) \<le> x \<and>
             x \<le> float32 (float64 (sqrt (float64 (6 / (3 * real d + 1)))))))
     \<and> bias (fst (reset_parameters self w)) = replicate (length (bias self)) 0
     \<and> (length (bias self) = 1 \<longrightarrow> bias (fst (reset_parameters self w)) = [0])"
proof -
  define std where "std = std_of (length (weight_vector self))"
  have std: "0 \<le> std" by (simp add: std_def std_of_nonneg)
  have wv: "weight_vector (fst (reset_parameters self w)) =
            fst (uniform (- std) std (length (weight_vector self)) w)"
    by (simp add: reset_parameters_def Let_def std_def split: prod.splits)
  have rng: "\<forall>x \<in> set (weight_vector (fst (reset_parameters self w))).
               - float32 std \<le> x \<and> x \<le> float32 std"
    using uniform_range[OF assms std] by (simp add: wv)
  have len: "length (weight_vector (fst (reset_parameters self w))) = length (weight_vector self)"
    by (simp add: wv uniform_def Let_def)
  have b: "bias (fst (reset_parameters self w)) = replicate (length (bias self)) 0"
    by (simp add: reset_parameters_def Let_def map_replicate_const split: prod.splits)
  have d: "std = float64 (sqrt (float64 (6 / (3 * real d + 1))))"
    if "length (weight_vector self) = 3 * d"
    using that by (simp add: std_def std_of_def)
  have b1: "bias (fst (reset_parameters self w)) = [0]" if "length (bias self) = 1"
    using that b by simp
  show ?thesis using len rng b b1 d unfolding std_def[symmetric] by auto
qed

text \<open>With three weights the bound is \<open>10273905 / 8388608\<close>, the float32 number nearest to
  \<open>sqrt (3 / 2)\<close>.\<close>

theorem reset_parameters_range_witness:
  "(\<forall>i. 0 \<le> samples ex_world i \<and> samples ex_world i < 1) \<and>
   length (weight_vector (fst (reset_parameters ex_scorer1 ex_world))) = 3 \<and>
   - (10273905 / 8388608) \<le> hd (weight_vector (fst (reset_parameters ex_scorer1 ex_world))) \<and>
   hd (weight_vector (fst (reset_parameters ex_scorer1 ex_world))) \<le> 10273905 / 8388608 \<and>
   bias (fst (reset_parameters ex_scorer1 ex_world)) = [0]"
proof -
  let ?r = "fst (reset_parameters ex_scorer1 ex_world)"
  have h: "\<forall>i. 0 \<le> samples ex_world i \<and> samples ex_world i < 1"
    by (simp add: ex_world_def)
  note t = reset_parameters_range[OF h, of ex_scorer1 0]
  have n: "length (weight_vector ex_scorer1) = 3" by (simp add: ex_scorer1_def)
  have len: "length (weight_vector ?r) = 3" using t n by simp
  then have "weight_vector ?r \<noteq> []" by auto
  then have "hd (weight_vector ?r) \<in> set (weight_vector ?r)" by simp
  with t have "- float32 (std_of (length (weight_vector ex_scorer1))) \<le> hd (weight_vector ?r) \<and>
     hd (weight_vector ?r) \<le> float32 (std_of (length (weight_vector ex_scorer1)))" by blast
  then have rng: "- (10273905 / 8388608) \<le> hd (weight_vector ?r) \<and>
     hd (weight_vector ?r) \<le> 10273905 / 8388608"
    by (simp add: n float32_std_of_3)
  have "length (bias ex_scorer1) = 1" by (simp add: ex_scorer1_def)
  with t have "bias ?r = [0]" by blast
  with h len rng show ?thesis by blast
qed

text \<open>
  C5 as stated fails: for three weights \<open>std\<close> is \<open>sqrt (3 / 2)\<close>, whose float32 rounding
  \<open>10273905 / 8388608\<close> is larger; when the generator returns 0, every weight is the
  lower float32 bound, which is below \<open>-std\<close>, both for the exact square root and for
  the Python float.
\<close>

theorem reset_parameters_below_std:
  "(\<forall>i. 0 \<le> samples ex_world0 i \<and> samples ex_world0 i < 1) \<and>
   length (weight_vector ex_scorer1) = 3 * 1 \<and>
   weight_vector (fst (reset_parameters ex_scorer1 ex_world0)) =
     [- (10273905 / 8388608), - (10273905 / 8388608), - (10273905 / 8388608)] \<and>
   - (10273905 / 8388608) < - sqrt (6 / (real (length (weight_vector ex_scorer1)) + 1)) \<and>
   - (10273905 / 8388608) < - std_of (length (weight_vector ex_scorer1))"
proof -
  have n: "length (weight_vector ex_scorer1) = 3" by (simp add: ex_scorer1_def)
  have h: "\<forall>i. 0 \<le> samples ex_world0 i \<and> samples ex_world0 i < 1"
    by (simp add: ex_world0_def)
  define c :: real where "c = 10273905 / 8388608"
  have a: "float32 (- std_of 3) = - c" by (simp add: float32_minus float32_std_of_3 c_def)
  have cc: "c = float32 (std_of 3)" by (simp add: float32_std_of_3 c_def)
  have "float32 c = c" unfolding cc by (rule float32_idem)
  then have fc: "float32 (- c) = - c" by (simp add: float32_minus)
  have entry: "fadd (fmul 0 z) (- c) = - c" for z
    by (simp add: fadd_def fmul_def fc)
  have wv: "weight_vector (fst (reset_parameters ex_scorer1 ex_world0)) = [- c, - c, - c]"
    by (simp add: reset_parameters_def uniform_def Let_def n ex_world0_def a entry
        upt_conv_Cons)
  have "sqrt (3 / 2) < c" unfolding c_def
    by (rule real_less_lsqrt) (simp_all add: power2_eq_square)
  then have s: "- c < - sqrt (6 / (real (length (weight_vector ex_scorer1)) + 1))"
    by (simp add: n)
  have d: "- c < - std_of (length (weight_vector ex_scorer1))"
    by (simp add: n std_of_3 c_def)
  from h n wv s d show ?thesis unfolding c_def by simp
qed

subsection \<open>The combination string\<close>

lemma combination_dim_Inr: "combination_dim tok a b = Inr n \<Longrightarrow> recognized tok"
  by (auto simp: combination_dim_def recognized_def split: if_splits)

lemma combination_dim_same: "recognized tok \<Longrightarrow> combination_dim tok d d = Inr d"
  by (auto simp: combination_dim_def)

lemma sum_dims_Inr:
  "sum_dims (map f toks) = Inr n \<Longrightarrow> tok \<in> set toks \<Longrightarrow> \<exists>m. f tok = Inr m"
  by (induction toks arbitrary: n) (auto split: sum.splits)

lemma sum_dims_Inl:
  "sum_dims (map (\<lambda>tok. combination_dim tok a b) toks) = Inl e \<Longrightarrow> e = ConfigurationError"
  by (induction toks) (auto simp: combination_dim_def split: sum.splits if_splits)

lemma get_combined_dim_unrecognized:
  assumes "tok \<in> set (str_split CHR '','' comb)" and "\<not> recognized tok"
  shows "get_combined_dim comb [a, b] = Inl ConfigurationError"
proof (cases "get_combined_dim comb [a, b]")
  case (Inl e)
  then show ?thesis using sum_dims_Inl[of a b "str_split CHR '','' comb" e]
    by (simp add: get_combined_dim_def)
next
  case (Inr n)
  then have "\<exists>m. combination_dim tok a b = Inr m"
    using sum_dims_Inr[of "\<lambda>tok. combination_dim tok a b" "str_split CHR '','' comb" n tok] assms(1)
    by (simp add: get_combined_dim_def)
  with assms(2) show ?thesis by (auto dest: combination_dim_Inr)
qed

text \<open>
  C7. With \<open>get_combined_dim\<close> as the specification describes it: if some token of the
  combination string is not one of \<open>x\<close>, \<open>y\<close>, \<open>x*y\<close>, \<open>x+y\<close>, \<open>x-y\<close>, \<open>x/y\<close>,
  construction raises a ConfigurationError and leaves the environment as it was, so
  neither the weight vector nor the bias has been allocated; and construction succeeds
  only when every token is recognized.
\<close>

theorem init_unrecognized_token:
  "((\<exists>tok \<in> set (str_split CHR '','' comb). \<not> recognized tok) \<longrightarrow>
      init get_combined_dim d1 d2 comb act w = (Inl ConfigurationError, w))
 \<and> (fst (init get_combined_dim d1 d2 comb act w) = Inr s \<longrightarrow>
      (\<forall>tok \<in> set (str_split CHR '','' comb). recognized tok))"
proof (intro conjI impI)
  assume "\<exists>tok \<in> set (str_split CHR '','' comb). \<not> recognized tok"
  then have "get_combined_dim comb [d1, d2] = Inl ConfigurationError"
    using get_combined_dim_unrecognized by blast
  then show "init get_combined_dim d1 d2 comb act w = (Inl ConfigurationError, w)"
    by (simp add: init_def Let_def)
next
  assume ok: "fst (init get_combined_dim d1 d2 comb act w) = Inr s"
  show "\<forall>tok \<in> set (str_split CHR '','' comb). recognized tok"
  proof (rule ccontr)
    assume "\<not> ?thesis"
    then have "get_combined_dim comb [d1, d2] = Inl ConfigurationError"
      using get_combined_dim_unrecognized by blast
    then have "fst (init get_combined_dim d1 d2 comb act w) = Inl ConfigurationError"
      by (simp add: init_def Let_def)
    with ok show False by simp
  qed
qed

theorem init_unrecognized_token_witness:
  "''z'' \<in> set (str_split CHR '','' ''x,z'') \<and> \<not> recognized ''z'' \<and>
   init get_combined_dim 2 2 ''x,z'' (\<lambda>t. t) ex_world = (Inl ConfigurationError, ex_world) \<and>
   allocated (snd (init get_combined_dim 2 2 ''x,z'' (\<lambda>t. t) ex_world)) = [] \<and>
   (\<exists>s. fst (init get_combined_dim 2 2 ''x,y'' (\<lambda>t. t) ex_world) = Inr s) \<and>
   recognized ''x'' \<and> recognized ''y''"
proof -
  have a: "''z'' \<in> set (str_split CHR '','' ''x,z'')" and b: "\<not> recognized ''z''"
    by (simp_all add: recognized_def)
  then have "\<exists>tok \<in> set (str_split CHR '','' ''x,z''). \<not> recognized tok" by blast
  with init_unrecognized_token[where comb = "''x,z''" and ?d1.0 = 2 and ?d2.0 = 2
      and act = "\<lambda>t. t" and w = ex_world]
  have 1: "init get_combined_dim 2 2 ''x,z'' (\<lambda>t. t) ex_world = (Inl ConfigurationError, ex_world)"
    by blast
  then have 2: "allocated (snd (init get_combined_dim 2 2 ''x,z'' (\<lambda>t. t) ex_world)) = []"
    by (simp add: ex_world_def)
  have g: "get_combined_dim ''x,y'' [2, 2] = Inr 4" by (simp add: config_eval)
  from init_ok[where g = get_combined_dim and act = "\<lambda>t. t" and w = ex_world, OF g]
  obtain s where 3: "fst (init get_combined_dim 2 2 ''x,y'' (\<lambda>t. t) ex_world) = Inr s" by auto
  with init_unrecognized_token[where comb = "''x,y''" and ?d1.0 = 2 and ?d2.0 = 2
      and act = "\<lambda>t. t" and w = ex_world and s = s]
  have "\<forall>tok \<in> set (str_split CHR '','' ''x,y''). recognized tok" by blast
  then have 4: "recognized ''x'' \<and> recognized ''y''" by simp
  from a b 1 2 3 4 show ?thesis by blast
qed

text \<open>
  C8. With \<open>get_combined_dim\<close> as the specification describes it: for every positive
  \<open>d\<close>, constructing the scorer with both dimensions \<open>d\<close> and a combination string of
  exactly three recognized tokens succeeds, the combined dimension is the sum \<open>d + d + d\<close>
  of the tokens' dimensions, the weight vector has length \<open>3 * d\<close>, the bias has length
  1, and exactly these two tensors are allocated.
\<close>

theorem init_three_tokens:
  assumes "0 < d" and "str_split CHR '','' comb = [a, b, c]"
    and "recognized a" and "recognized b" and "recognized c"
  shows "\<exists>s w'. init get_combined_dim d d comb act w = (Inr s, w') \<and>
           length (weight_vector s) = nat (3 * d) \<and> length (bias s) = 1 \<and> part s = 3 \<and>
           get_combined_dim comb [d, d] = Inr (d + d + d) \<and>
           allocated w' = allocated w @ [nat (3 * d), 1]"
proof -
  have g: "get_combined_dim comb [d, d] = Inr (3 * d)"
    using assms(2-5) by (simp add: get_combined_dim_def combination_dim_same)
  have "0 \<le> 3 * d" using assms(1) by simp
  from init_ok[where g = get_combined_dim and act = act and w = w, OF g this] g assms(2)
  show ?thesis by auto
qed

theorem init_three_tokens_witness:
  "(0::int) < 2 \<and> str_split CHR '','' ''x,y,x*y'' = [''x'', ''y'', ''x*y''] \<and>
   recognized ''x'' \<and> recognized ''y'' \<and> recognized ''x*y'' \<and>
   (\<exists>s w'. init get_combined_dim 2 2 ''x,y,x*y'' (\<lambda>t. t) ex_world = (Inr s, w') \<and>
       length (weight_vector s) = 6 \<and> length (bias s) = 1 \<and> allocated w' = [6, 1])"
proof -
  have h: "(0::int) < 2" "str_split CHR '','' ''x,y,x*y'' = [''x'', ''y'', ''x*y'']"
    "recognized ''x''" "recognized ''y''" "recognized ''x*y''"
    by (simp_all add: recognized_def)
  from init_three_tokens[OF h, of "\<lambda>t. t" ex_world] obtain s w'
    where "init get_combined_dim 2 2 ''x,y,x*y'' (\<lambda>t. t) ex_world = (Inr s, w')"
      "length (weight_vector s) = nat (3 * 2)" "length (bias s) = 1"
      "allocated w' = allocated ex_world @ [nat (3 * 2), 1]"
    by blast
  then have "init get_combined_dim 2 2 ''x,y,x*y'' (\<lambda>t. t) ex_world = (Inr s, w') \<and>
       length (weight_vector s) = 6 \<and> length (bias s) = 1 \<and> allocated w' = [6, 1]"
    by (simp add: ex_world_def)
  with h show ?thesis by blast
qed

section \<open>Construction from a configuration object\<close>

lemma map_of_remove_key:
  "map_of (remove_key k ps) k' = (if k' = k then None else map_of ps k')"
  by (induction ps) (auto simp: remove_key_def)

lemma set_remove_key: "set (remove_key k ps) = {kv \<in> set ps. fst kv \<noteq> k}"
  by (auto simp: remove_key_def)

lemma pop_int_Inr:
  "pop_int ps k = Inr (n, ps') \<Longrightarrow> map_of ps k = Some (PInt n) \<and> ps' = remove_key k ps"
  by (auto simp: pop_int_def split: option.splits pvalue.splits)

lemma pop_int_absent: "map_of ps k = None \<Longrightarrow> pop_int ps k = Inl ConfigurationError"
  by (simp add: pop_int_def)

lemma pop_keeps:
  "pop ps k d = (v, ps') \<Longrightarrow> kv \<in> set ps \<Longrightarrow> fst kv \<noteq> k \<Longrightarrow> kv \<in> set ps'"
  by (auto simp: pop_def set_remove_key split: option.splits)

lemma pop_value:
  "pop ps k d = (v, ps') \<Longrightarrow> v = (case map_of ps k of None \<Rightarrow> d | Some u \<Rightarrow> u)"
  by (auto simp: pop_def split: option.splits)

lemma pop_map_of:
  "pop ps k d = (v, ps') \<Longrightarrow> k' \<noteq> k \<Longrightarrow> map_of ps' k' = map_of ps k'"
  by (auto simp: pop_def map_of_remove_key split: option.splits)


lemma from_params_Inr:
  assumes "fst (from_params reg ps w) = Inr s"
  shows "\<exists>d1 d2 c a.
           map_of ps ''tensor_1_dim'' = Some (PInt d1) \<and>
           map_of ps ''tensor_2_dim'' = Some (PInt d2) \<and>
           (case map_of ps ''combination'' of None \<Rightarrow> PStr ''x,y'' | Some v \<Rightarrow> v) = PStr c \<and>
           Activation_by_name reg
             (case map_of ps ''activation'' of None \<Rightarrow> PStr ''linear'' | Some v \<Rightarrow> v) = Inr a \<and>
           from_params reg ps w = init get_combined_dim d1 d2 c a w"
proof -
  obtain d1 ps1 where 1: "pop_int ps ''tensor_1_dim'' = Inr (d1, ps1)"
    using assms by (auto simp: from_params_def split: sum.splits)
  obtain d2 ps2 where 2: "pop_int ps1 ''tensor_2_dim'' = Inr (d2, ps2)"
    using assms 1 by (auto simp: from_params_def split: sum.splits)
  obtain cv ps3 where 3: "pop ps2 ''combination'' (PStr ''x,y'') = (cv, ps3)"
    by (cases "pop ps2 ''combination'' (PStr ''x,y'')") auto
  obtain nv ps4 where 4: "pop ps3 ''activation'' (PStr ''linear'') = (nv, ps4)"
    by (cases "pop ps3 ''activation'' (PStr ''linear'')") auto
  obtain a where 5: "Activation_by_name reg nv = Inr a"
    using assms 1 2 3 4 by (auto simp: from_params_def split: sum.splits)
  have 6: "assert_empty ps4 = Inr ()"
    using assms 1 2 3 4 5 by (auto simp: from_params_def split: sum.splits)
  obtain c where 7: "cv = PStr c"
    using assms 1 2 3 4 5 6 by (cases cv) (auto simp: from_params_def)
  have fp: "from_params reg ps w = init get_combined_dim d1 d2 c a w"
    using 1 2 3 4 5 6 7 by (simp add: from_params_def)
  note p1 = pop_int_Inr[OF 1]
  note p2 = pop_int_Inr[OF 2]
  have m1: "map_of ps ''tensor_1_dim'' = Some (PInt d1)" using p1 by simp
  have m2: "map_of ps ''tensor_2_dim'' = Some (PInt d2)"
    using p1 p2 by (simp add: map_of_remove_key split: if_splits)
  have m3: "map_of ps2 ''combination'' = map_of ps ''combination''"
    using p1 p2 by (simp add: map_of_remove_key)
  have m4: "map_of ps3 ''activation'' = map_of ps ''activation''"
    using pop_map_of[OF 3, of "''activation''"] p1 p2 by (simp add: map_of_remove_key)
  have c: "(case map_of ps ''combination'' of None \<Rightarrow> PStr ''x,y'' | Some v \<Rightarrow> v) = PStr c"
    using pop_value[OF 3] 7 m3 by simp
  have n: "nv = (case map_of ps ''activation'' of None \<Rightarrow> PStr ''linear'' | Some v \<Rightarrow> v)"
    using pop_value[OF 4] m4 by simp
  from m1 m2 c 5 n fp show ?thesis by blast
qed

lemma from_params_leftover:
  assumes "(k, v) \<in> set ps"
    and "k \<noteq> ''tensor_1_dim''" and "k \<noteq> ''tensor_2_dim''"
    and "k \<noteq> ''combination''" and "k \<noteq> ''activation''"
  shows "\<exists>e. from_params reg ps w = (Inl e, w)"
proof (cases "pop_int ps ''tensor_1_dim''")
  case (Inl e)
  then show ?thesis by (simp add: from_params_def)
next
  case (Inr r1)
  then obtain d1 ps1 where 1: "pop_int ps ''tensor_1_dim'' = Inr (d1, ps1)" by (cases r1) auto
  have k1: "(k, v) \<in> set ps1" using pop_int_Inr[OF 1] assms(1,2) by (simp add: set_remove_key)
  show ?thesis
  proof (cases "pop_int ps1 ''tensor_2_dim''")
    case (Inl e)
    then show ?thesis using 1 by (simp add: from_params_def)
  next
    case (Inr r2)
    then obtain d2 ps2 where 2: "pop_int ps1 ''tensor_2_dim'' = Inr (d2, ps2)" by (cases r2) auto
    have k2: "(k, v) \<in> set ps2" using pop_int_Inr[OF 2] k1 assms(3) by (simp add: set_remove_key)
    obtain cv ps3 where 3: "pop ps2 ''combination'' (PStr ''x,y'') = (cv, ps3)"
      by (cases "pop ps2 ''combination'' (PStr ''x,y'')") auto
    have k3: "(k, v) \<in> set ps3" using pop_keeps[OF 3 k2] assms(4) by simp
    obtain nv ps4 where 4: "pop ps3 ''activation'' (PStr ''linear'') = (nv, ps4)"
      by (cases "pop ps3 ''activation'' (PStr ''linear'')") auto
    have k4: "(k, v) \<in> set ps4" using pop_keeps[OF 4 k3] assms(5) by simp
    then have "ps4 \<noteq> []" by auto
    then have 6: "assert_empty ps4 = Inl ConfigurationError" by (simp add: assert_empty_def)
    show ?thesis using 1 2 3 4 6
      by (cases "Activation_by_name reg nv") (simp_all add: from_params_def)
  qed
qed

lemma remove_key_absent: "map_of ps k = None \<Longrightarrow> remove_key k ps = ps"
  by (induction ps) (auto simp: remove_key_def split: if_splits)

lemma pop_eq:
  "pop ps k d = ((case map_of ps k of None \<Rightarrow> d | Some v \<Rightarrow> v), remove_key k ps)"
  by (simp add: pop_def remove_key_absent split: option.splits)

lemma from_params_ok:
  assumes m1: "map_of ps ''tensor_1_dim'' = Some (PInt d1)"
    and m2: "map_of ps ''tensor_2_dim'' = Some (PInt d2)"
    and mc: "(case map_of ps ''combination'' of None \<Rightarrow> PStr ''x,y'' | Some v \<Rightarrow> v) = PStr c"
    and ma: "Activation_by_name reg
               (case map_of ps ''activation'' of None \<Rightarrow> PStr ''linear'' | Some v \<Rightarrow> v) = Inr a"
    and keys: "\<forall>kv \<in> set ps.
                 fst kv \<in> {''tensor_1_dim'', ''tensor_2_dim'', ''combination'', ''activation''}"
  shows "from_params reg ps w = init get_combined_dim d1 d2 c a w"
proof -
  let ?ps1 = "remove_key ''tensor_1_dim'' ps"
  let ?ps2 = "remove_key ''tensor_2_dim'' ?ps1"
  let ?ps3 = "remove_key ''combination'' ?ps2"
  let ?ps4 = "remove_key ''activation'' ?ps3"
  have 1: "pop_int ps ''tensor_1_dim'' = Inr (d1, ?ps1)" using m1 by (simp add: pop_int_def)
  have 2: "pop_int ?ps1 ''tensor_2_dim'' = Inr (d2, ?ps2)"
    using m2 by (simp add: pop_int_def map_of_remove_key)
  have 3: "pop ?ps2 ''combination'' (PStr ''x,y'') = (PStr c, ?ps3)"
    using mc by (simp add: pop_eq map_of_remove_key)
  have 4: "pop ?ps3 ''activation'' (PStr ''linear'') =
           ((case map_of ps ''activation'' of None \<Rightarrow> PStr ''linear'' | Some v \<Rightarrow> v), ?ps4)"
    by (simp add: pop_eq map_of_remove_key)
  have "set ?ps4 = {}" using keys by (auto simp: set_remove_key)
  then have 6: "assert_empty ?ps4 = Inr ()" by (simp add: assert_empty_def)
  show ?thesis using 1 2 3 4 ma 6 by (simp add: from_params_def)
qed

text \<open>
  C9. With the configuration object and the activation registry as the specification
  describes them: \<open>from_params\<close> fails, without any effect on the environment, if
  \<open>tensor_1_dim\<close> or \<open>tensor_2_dim\<close> is absent, and if a key other than the four it
  reads is present. It succeeds only if the two dimensions are integers stored under
  their keys, and then, as whenever the two dimensions are integers, the combination is
  absent or a string, the activation is absent or a registered name and no other key is
  present, it returns what the constructor returns for these four values: the two
  integers, the string stored under \<open>combination\<close> or else \<open>x,y\<close>, and the activation
  registered under the name stored under \<open>activation\<close> or else under \<open>linear\<close>, which is
  the identity.
\<close>

theorem from_params_reads:
  "((map_of ps ''tensor_1_dim'' = None \<or> map_of ps ''tensor_2_dim'' = None) \<longrightarrow>
      (\<exists>e. from_params reg ps w = (Inl e, w)))
 \<and> ((\<exists>kv \<in> set ps. fst kv \<notin> {''tensor_1_dim'', ''tensor_2_dim'', ''combination'', ''activation''}) \<longrightarrow>
      (\<exists>e. from_params reg ps w = (Inl e, w)))
 \<and> (fst (from_params reg ps w) = Inr s \<longrightarrow>
      (\<exists>d1 d2 c a.
          map_of ps ''tensor_1_dim'' = Some (PInt d1) \<and>
          map_of ps ''tensor_2_dim'' = Some (PInt d2) \<and>
          (case map_of ps ''combination'' of None \<Rightarrow> PStr ''x,y'' | Some v \<Rightarrow> v) = PStr c \<and>
          Activation_by_name reg
            (case map_of ps ''activation'' of None \<Rightarrow> PStr ''linear'' | Some v \<Rightarrow> v) = Inr a \<and>
          from_params reg ps w = init get_combined_dim d1 d2 c a w))
 \<and> (map_of ps ''tensor_1_dim'' = Some (PInt d1) \<and>
    map_of ps ''tensor_2_dim'' = Some (PInt d2) \<and>
    (case map_of ps ''combination'' of None \<Rightarrow> PStr ''x,y'' | Some v \<Rightarrow> v) = PStr c \<and>
    Activation_by_name reg
      (case map_of ps ''activation'' of None \<Rightarrow> PStr ''linear'' | Some v \<Rightarrow> v) = Inr a \<and>
    (\<forall>kv \<in> set ps.
       fst kv \<in> {''tensor_1_dim'', ''tensor_2_dim'', ''combination'', ''activation''}) \<longrightarrow>
      from_params reg ps w = init get_combined_dim d1 d2 c a w)
 \<and> Activation_by_name reg (PStr ''linear'') = Inr (\<lambda>t. t)"
proof (intro conjI impI)
  assume absent: "map_of ps ''tensor_1_dim'' = None \<or> map_of ps ''tensor_2_dim'' = None"
  show "\<exists>e. from_params reg ps w = (Inl e, w)"
  proof (cases "pop_int ps ''tensor_1_dim''")
    case (Inl e)
    then show ?thesis by (simp add: from_params_def)
  next
    case (Inr r1)
    then obtain d1 ps1 where 1: "pop_int ps ''tensor_1_dim'' = Inr (d1, ps1)" by (cases r1) auto
    note p1 = pop_int_Inr[OF 1]
    with absent have "map_of ps ''tensor_2_dim'' = None" by auto
    then have "map_of ps1 ''tensor_2_dim'' = None" using p1 by (simp add: map_of_remove_key)
    then have "pop_int ps1 ''tensor_2_dim'' = Inl ConfigurationError" by (rule pop_int_absent)
    with 1 show ?thesis by (simp add: from_params_def)
  qed
next
  assume "\<exists>kv \<in> set ps. fst kv \<notin> {''tensor_1_dim'', ''tensor_2_dim'', ''combination'', ''activation''}"
  then obtain k v where "(k, v) \<in> set ps" "k \<noteq> ''tensor_1_dim''" "k \<noteq> ''tensor_2_dim''"
    "k \<noteq> ''combination''" "k \<noteq> ''activation''" by auto
  then show "\<exists>e. from_params reg ps w = (Inl e, w)" by (rule from_params_leftover)
next
  assume "fst (from_params reg ps w) = Inr s"
  from from_params_Inr[OF this]
  show "\<exists>d1 d2 c a.
          map_of ps ''tensor_1_dim'' = Some (PInt d1) \<and>
          map_of ps ''tensor_2_dim'' = Some (PInt d2) \<and>
          (case map_of ps ''combination'' of None \<Rightarrow> PStr ''x,y'' | Some v \<Rightarrow> v) = PStr c \<and>
          Activation_by_name reg
            (case map_of ps ''activation'' of None \<Rightarrow> PStr ''linear'' | Some v \<Rightarrow> v) = Inr a \<and>
          from_params reg ps w = init get_combined_dim d1 d2 c a w" by blast
next
  assume "map_of ps ''tensor_1_dim'' = Some (PInt d1) \<and>
    map_of ps ''tensor_2_dim'' = Some (PInt d2) \<and>
    (case map_of ps ''combination'' of None \<Rightarrow> PStr ''x,y'' | Some v \<Rightarrow> v) = PStr c \<and>
    Activation_by_name reg
      (case map_of ps ''activation'' of None \<Rightarrow> PStr ''linear'' | Some v \<Rightarrow> v) = Inr a \<and>
    (\<forall>kv \<in> set ps.
       fst kv \<in> {''tensor_1_dim'', ''tensor_2_dim'', ''combination'', ''activation''})"
  then show "from_params reg ps w = init get_combined_dim d1 d2 c a w"
    using from_params_ok[of ps d1 d2 c reg a w] by blast
next
  show "Activation_by_name reg (PStr ''linear'') = Inr (\<lambda>t. t)"
    by (simp add: Activation_by_name_def)
qed

text \<open>A configuration without its first required key, one with a key too many, and the
  configuration that leaves both optional keys out: it is accepted, with the combination
  \<open>x,y\<close> and the identity.\<close>

theorem from_params_reads_witness:
  "map_of (tl ex_params) ''tensor_1_dim'' = None \<and>
   (\<exists>e. from_params Map.empty (tl ex_params) ex_world = (Inl e, ex_world)) \<and>
   (''foo'', PInt 1) \<in> set ((''foo'', PInt 1) # ex_params) \<and>
   (\<exists>e. from_params Map.empty ((''foo'', PInt 1) # ex_params) ex_world = (Inl e, ex_world)) \<and>
   map_of ex_params_defaults ''tensor_1_dim'' = Some (PInt 2) \<and>
   map_of ex_params_defaults ''tensor_2_dim'' = Some (PInt 2) \<and>
   map_of ex_params_defaults ''combination'' = None \<and>
   map_of ex_params_defaults ''activation'' = None \<and>
   from_params Map.empty ex_params_defaults ex_world =
     init get_combined_dim 2 2 ''x,y'' (\<lambda>t. t) ex_world \<and>
   (\<exists>s. fst (from_params Map.empty ex_params_defaults ex_world) = Inr s \<and>
        combination s = ''x,y'' \<and> part s = 2 \<and> length (weight_vector s) = 4)"
proof -
  have a: "map_of (tl ex_params) ''tensor_1_dim'' = None" by (simp add: ex_params_def)
  with from_params_reads[where ps = "tl ex_params" and reg = Map.empty and w = ex_world]
  have 1: "\<exists>e. from_params Map.empty (tl ex_params) ex_world = (Inl e, ex_world)" by blast
  have b: "(''foo'', PInt 1) \<in> set ((''foo'', PInt 1) # ex_params)" by simp
  have "\<exists>kv \<in> set ((''foo'', PInt 1) # ex_params).
          fst kv \<notin> {''tensor_1_dim'', ''tensor_2_dim'', ''combination'', ''activation''}"
    by (rule bexI[OF _ b]) simp
  with from_params_reads[where ps = "(''foo'', PInt 1) # ex_params" and reg = Map.empty
      and w = ex_world]
  have 2: "\<exists>e. from_params Map.empty ((''foo'', PInt 1) # ex_params) ex_world = (Inl e, ex_world)"
    by blast
  have m: "map_of ex_params_defaults ''tensor_1_dim'' = Some (PInt 2)"
    "map_of ex_params_defaults ''tensor_2_dim'' = Some (PInt 2)"
    "map_of ex_params_defaults ''combination'' = None"
    "map_of ex_params_defaults ''activation'' = None"
    by (simp_all add: ex_params_defaults_def)
  have h: "map_of ex_params_defaults ''tensor_1_dim'' = Some (PInt 2) \<and>
    map_of ex_params_defaults ''tensor_2_dim'' = Some (PInt 2) \<and>
    (case map_of ex_params_defaults ''combination'' of None \<Rightarrow> PStr ''x,y'' | Some v \<Rightarrow> v) =
      PStr ''x,y'' \<and>
    Activation_by_name Map.empty
      (case map_of ex_params_defaults ''activation'' of None \<Rightarrow> PStr ''linear'' | Some v \<Rightarrow> v) =
      Inr (\<lambda>t. t) \<and>
    (\<forall>kv \<in> set ex_params_defaults.
       fst kv \<in> {''tensor_1_dim'', ''tensor_2_dim'', ''combination'', ''activation''})"
    by (simp add: ex_params_defaults_def Activation_by_name_def)
  with from_params_reads[where ps = ex_params_defaults and reg = Map.empty and w = ex_world
      and ?d1.0 = 2 and ?d2.0 = 2 and c = "''x,y''" and a = "\<lambda>t. t"]
  have 3: "from_params Map.empty ex_params_defaults ex_world =
     init get_combined_dim 2 2 ''x,y'' (\<lambda>t. t) ex_world" by blast
  have g: "get_combined_dim ''x,y'' [2, 2] = Inr 4" by (simp add: config_eval)
  from init_ok[where g = get_combined_dim and act = "\<lambda>t. t" and w = ex_world, OF g]
  obtain s w' where i: "init get_combined_dim 2 2 ''x,y'' (\<lambda>t. t) ex_world = (Inr s, w')"
    and l: "length (weight_vector s) = 4" and p: "part s = 2"
    by auto
  have c: "combination s = ''x,y''" using init_Inr(2)[OF i] .
  have 4: "\<exists>s. fst (from_params Map.empty ex_params_defaults ex_world) = Inr s \<and>
        combination s = ''x,y'' \<and> part s = 2 \<and> length (weight_vector s) = 4"
    using 3 i l p c by auto
  from a 1 b 2 m 3 4 show ?thesis by blast
qed

end
